theory Spec2Isabelle
  imports Complex_Main "HOL-Library.FSet"
begin

section \<open>The knapsack evolutionary algorithm of \<^verbatim>\<open>knapsack.py\<close>\<close>

text \<open>
  An individual is a Python \<^verbatim>\<open>set\<close> of item indices: a finite set of integers,
  \<^typ>\<open>int fset\<close>. The item table is a \<^verbatim>\<open>dict\<close> from index to
  \<^verbatim>\<open>(weight, value)\<close>: a map \<^typ>\<open>int \<rightharpoonup> int \<times> real\<close>. Weights are Python integers
  (\<^typ>\<open>int\<close>). Values are Python floats; they are idealised as \<^typ>\<open>real\<close>, so sums
  are exact and do not depend on the order in which a set is iterated.
\<close>

subsection \<open>Constants and errors\<close>

definition IND_INIT_SIZE :: nat where
  "IND_INIT_SIZE = 5"

definition MAX_ITEM :: int where
  "MAX_ITEM = 50"

definition MAX_WEIGHT :: int where
  "MAX_WEIGHT = 50"

definition NBR_ITEMS :: int where
  "NBR_ITEMS = 20"

text \<open>The exceptions the modelled statements can raise.\<close>

datatype py_error = KeyError | IndexError | ValueError | TypeError

type_synonym individual = "int fset"
type_synonym item_table = "int \<rightharpoonup> int \<times> real"
type_synonym fitness = "int \<times> real"

subsection \<open>Fitness evaluation\<close>

text \<open>\<^verbatim>\<open>items[item]\<close>: a dictionary lookup raises \<^verbatim>\<open>KeyError\<close> on a missing key.\<close>

definition getitem :: "item_table \<Rightarrow> int \<Rightarrow> py_error + (int \<times> real)" where
  "getitem items item = (case items item of None \<Rightarrow> Inl KeyError | Some entry \<Rightarrow> Inr entry)"

text \<open>
  \<^verbatim>\<open>sum(f(items[item]) for item in ...)\<close>: the generator is consumed from left to right, the
  running total starts at 0, and the first failing lookup aborts the sum.
\<close>

fun sum_generator :: "(int \<times> real \<Rightarrow> 'a::monoid_add) \<Rightarrow> item_table \<Rightarrow> int list \<Rightarrow> 'a \<Rightarrow> py_error + 'a" where
  "sum_generator f items [] acc = Inr acc"
| "sum_generator f items (item # rest) acc =
     (case getitem items item of
        Inl e \<Rightarrow> Inl e
      | Inr entry \<Rightarrow> sum_generator f items rest (acc + f entry))"

text \<open>
  \<^verbatim>\<open>evalKnapsack(individual, items)\<close>. The set is iterated in some order fixed by the
  interpreter; the sorted order stands for it.
\<close>

definition evalKnapsack :: "individual \<Rightarrow> item_table \<Rightarrow> py_error + fitness" where
  "evalKnapsack individual items =
     (case sum_generator fst items (sorted_list_of_fset individual) 0 of
        Inl e \<Rightarrow> Inl e
      | Inr weight \<Rightarrow>
          (case sum_generator snd items (sorted_list_of_fset individual) 0 of
             Inl e \<Rightarrow> Inl e
           | Inr val \<Rightarrow>
               if int (fcard individual) > MAX_ITEM \<or> weight > MAX_WEIGHT
               then Inr (10000, 0)
               else Inr (weight, val)))"

text \<open>The two totals as the specification words them: sums over the members of the set.\<close>

definition total_weight :: "individual \<Rightarrow> item_table \<Rightarrow> int" where
  "total_weight A items = (\<Sum>item \<in> fset A. fst (the (items item)))"

definition total_value :: "individual \<Rightarrow> item_table \<Rightarrow> real" where
  "total_value A items = (\<Sum>item \<in> fset A. snd (the (items item)))"

subsection \<open>The pseudo-random stream\<close>

text \<open>
  Python's \<^verbatim>\<open>random\<close> module is a global generator outside the repository. It is taken as
  a parameter: a generator state \<open>'g\<close>, the state a seed sets, and the two primitives every
  call of the program goes through, \<^verbatim>\<open>random()\<close> and \<^verbatim>\<open>_randbelow(n)\<close>. Each draw returns
  its value and the next state.
\<close>

record 'g random_module =
  seed_state :: "int \<Rightarrow> 'g"
  random_draw :: "'g \<Rightarrow> real \<times> 'g"
  randbelow :: "int \<Rightarrow> 'g \<Rightarrow> int \<times> 'g"

text \<open>
  The documented ranges of the two primitives: \<^verbatim>\<open>random()\<close> lies in \<open>[0, 1)\<close> and
  \<^verbatim>\<open>_randbelow(n)\<close> in \<open>[0, n)\<close> for positive \<open>n\<close>.
\<close>

definition random_contract :: "'g random_module \<Rightarrow> bool" where
  "random_contract R \<longleftrightarrow>
     (\<forall>g. 0 \<le> fst (random_draw R g) \<and> fst (random_draw R g) < 1) \<and>
     (\<forall>n g. 0 < n \<longrightarrow> 0 \<le> fst (randbelow R n g) \<and> fst (randbelow R n g) < n)"

text \<open>\<^verbatim>\<open>random.randrange(n)\<close> raises \<^verbatim>\<open>ValueError\<close> on an empty range.\<close>

definition randrange :: "'g random_module \<Rightarrow> int \<Rightarrow> 'g \<Rightarrow> py_error + (int \<times> 'g)" where
  "randrange R n g = (if n \<le> 0 then Inl ValueError else Inr (randbelow R n g))"

text \<open>\<^verbatim>\<open>random.randint(a, b)\<close> is \<^verbatim>\<open>a + randrange(b - a + 1)\<close>.\<close>

definition randint :: "'g random_module \<Rightarrow> int \<Rightarrow> int \<Rightarrow> 'g \<Rightarrow> py_error + (int \<times> 'g)" where
  "randint R a b g =
     (case randrange R (b - a + 1) g of
        Inl e \<Rightarrow> Inl e
      | Inr (r, g') \<Rightarrow> Inr (a + r, g'))"

text \<open>\<^verbatim>\<open>random.uniform(a, b)\<close> is \<^verbatim>\<open>a + (b - a) * random()\<close>.\<close>

definition uniform :: "'g random_module \<Rightarrow> real \<Rightarrow> real \<Rightarrow> 'g \<Rightarrow> real \<times> 'g" where
  "uniform R a b g = (let (u, g') = random_draw R g in (a + (b - a) * u, g'))"

text \<open>
  \<^verbatim>\<open>random.choice(seq)\<close> raises \<^verbatim>\<open>IndexError\<close> on an empty sequence and returns
  \<^verbatim>\<open>seq[_randbelow(len(seq))]\<close> otherwise; an index outside the sequence raises too.
\<close>

definition choice :: "'g random_module \<Rightarrow> 'a list \<Rightarrow> 'g \<Rightarrow> py_error + ('a \<times> 'g)" where
  "choice R seq g =
     (if seq = [] then Inl IndexError
      else let (k, g') = randbelow R (int (length seq)) g
           in if 0 \<le> k \<and> k < int (length seq) then Inr (seq ! nat k, g') else Inl IndexError)"

text \<open>
  A small deterministic generator that meets the contract; the model is run with it on
  concrete inputs. Its state is a counter.
\<close>

definition counter_rng :: "nat random_module" where
  "counter_rng =
     \<lparr> seed_state = (\<lambda>seed. nat \<bar>seed\<bar>),
       random_draw = (\<lambda>g. (real (g mod 4) / 4, Suc g)),
       randbelow = (\<lambda>n g. (int g mod n, Suc g)) \<rparr>"

subsection \<open>Item generation\<close>

text \<open>
  \<^verbatim>\<open>create_items(seed)\<close> reseeds the generator and builds the dictionary
  \<^verbatim>\<open>{i: (randint(1, 10), uniform(0, 100)) for i in range(NBR_ITEMS)}\<close>: for each index in
  turn, the weight is drawn first, then the value.
\<close>

fun create_entries :: "'g random_module \<Rightarrow> int list \<Rightarrow> 'g \<Rightarrow> py_error + ((int \<times> int \<times> real) list \<times> 'g)" where
  "create_entries R [] g = Inr ([], g)"
| "create_entries R (i # rest) g =
     (case randint R 1 10 g of
        Inl e \<Rightarrow> Inl e
      | Inr (w, g1) \<Rightarrow>
          (let (v, g2) = uniform R 0 100 g1
           in case create_entries R rest g2 of
                Inl e \<Rightarrow> Inl e
              | Inr (entries, g3) \<Rightarrow> Inr ((i, (w, v)) # entries, g3)))"

definition create_items :: "'g random_module \<Rightarrow> int \<Rightarrow> py_error + (item_table \<times> 'g)" where
  "create_items R seed =
     (case create_entries R [0..NBR_ITEMS - 1] (seed_state R seed) of
        Inl e \<Rightarrow> Inl e
      | Inr (entries, g) \<Rightarrow> Inr (map_of entries, g))"

subsection \<open>Variation operators\<close>

text \<open>
  \<open>cxSet\<close> updates its two arguments in place, so it is modelled on a store of objects:
  a reference names an object and the store gives each object's current membership. The
  two parameters may name the same object.
\<close>

type_synonym ref = nat
type_synonym store = "ref \<Rightarrow> individual"

text \<open>Python's \<^verbatim>\<open>a ^ b\<close> on sets: the symmetric difference.\<close>

definition set_xor :: "'a fset \<Rightarrow> 'a fset \<Rightarrow> 'a fset" where
  "set_xor A B = (A |-| B) |\<union>| (B |-| A)"

definition cxSet :: "store \<Rightarrow> ref \<Rightarrow> ref \<Rightarrow> store \<times> (ref \<times> ref)" where
  "cxSet h ind1 ind2 =
     (let temp = h ind1;
          h1 = h(ind1 := h ind1 |\<inter>| h ind2);
          h2 = h1(ind2 := set_xor (h1 ind2) temp)
      in (h2, (ind1, ind2)))"

text \<open>\<^verbatim>\<open>s.remove(x)\<close> raises \<^verbatim>\<open>KeyError\<close> when \<open>x\<close> is not a member.\<close>

definition set_remove :: "'a fset \<Rightarrow> 'a \<Rightarrow> py_error + 'a fset" where
  "set_remove s x = (if x |\<in>| s then Inr (s |-| {|x|}) else Inl KeyError)"

text \<open>
  \<open>mutSet\<close> updates one object in place and returns it in a one-element tuple; the model
  returns the updated individual and the generator state after the draws it made.
\<close>

definition mutSet :: "'g random_module \<Rightarrow> individual \<Rightarrow> 'g \<Rightarrow> py_error + (individual \<times> 'g)" where
  "mutSet R individual g =
     (let (u, g1) = random_draw R g
      in if u < 1 / 2 then
           (if individual \<noteq> {||} then
              (case choice R (sorted_list_of_fset individual) g1 of
                 Inl e \<Rightarrow> Inl e
               | Inr (x, g2) \<Rightarrow>
                   (case set_remove individual x of
                      Inl e \<Rightarrow> Inl e
                    | Inr individual' \<Rightarrow> Inr (individual', g2)))
            else Inr (individual, g1))
         else
           (case randrange R NBR_ITEMS g1 of
              Inl e \<Rightarrow> Inl e
            | Inr (j, g2) \<Rightarrow> Inr (finsert j individual, g2)))"

text \<open>The full universe of item indices, \<^verbatim>\<open>set(range(NBR_ITEMS))\<close>.\<close>

definition universe :: individual where
  "universe = fset_of_list [0..NBR_ITEMS - 1]"

subsection \<open>Dominance\<close>

text \<open>
  Modelled from the spec: the dominance test of the fitness class lives in the DEAP library,
  not in the sources. The source fixes the objective weights, \<^verbatim>\<open>weights=(-1.0, 1.0)\<close>:
  weight is minimised and value is maximised. A fitness dominates another iff it is no
  worse on both weighted objectives and strictly better on at least one.
\<close>

definition fitness_weights :: "real \<times> real" where
  "fitness_weights = (- 1, 1)"

definition wvalues :: "fitness \<Rightarrow> real \<times> real" where
  "wvalues fit = (real_of_int (fst fit) * fst fitness_weights, snd fit * snd fitness_weights)"

definition dominates :: "fitness \<Rightarrow> fitness \<Rightarrow> bool" where
  "dominates a b \<longleftrightarrow>
     fst (wvalues a) \<ge> fst (wvalues b) \<and> snd (wvalues a) \<ge> snd (wvalues b) \<and>
     (fst (wvalues a) > fst (wvalues b) \<or> snd (wvalues a) > snd (wvalues b))"

subsection \<open>Initialisation\<close>

text \<open>
  Modelled from the spec: \<^verbatim>\<open>tools.initRepeat(container, func, n)\<close> of DEAP calls \<open>func\<close>
  \<open>n\<close> times in a row and hands the results to the container. The list of results is
  returned here; the caller applies the container.
\<close>

fun initRepeat :: "('g \<Rightarrow> py_error + ('a \<times> 'g)) \<Rightarrow> nat \<Rightarrow> 'g \<Rightarrow> py_error + ('a list \<times> 'g)" where
  "initRepeat func 0 g = Inr ([], g)"
| "initRepeat func (Suc n) g =
     (case func g of
        Inl e \<Rightarrow> Inl e
      | Inr (x, g1) \<Rightarrow>
          (case initRepeat func n g1 of
             Inl e \<Rightarrow> Inl e
           | Inr (xs, g2) \<Rightarrow> Inr (x # xs, g2)))"

text \<open>
  The three generators \<open>run_ea\<close> registers: \<^verbatim>\<open>attr_item\<close> is \<^verbatim>\<open>randrange(NBR_ITEMS)\<close>,
  \<^verbatim>\<open>individual\<close> builds a set from \<^verbatim>\<open>IND_INIT_SIZE\<close> draws of \<^verbatim>\<open>attr_item\<close>, and
  \<^verbatim>\<open>population\<close> builds a list of \<open>n\<close> individuals.
\<close>

definition attr_item :: "'g random_module \<Rightarrow> 'g \<Rightarrow> py_error + (int \<times> 'g)" where
  "attr_item R g = randrange R NBR_ITEMS g"

definition new_individual :: "'g random_module \<Rightarrow> 'g \<Rightarrow> py_error + (individual \<times> 'g)" where
  "new_individual R g =
     (case initRepeat (attr_item R) IND_INIT_SIZE g of
        Inl e \<Rightarrow> Inl e
      | Inr (draws, g') \<Rightarrow> Inr (fset_of_list draws, g'))"

definition new_population :: "'g random_module \<Rightarrow> nat \<Rightarrow> 'g \<Rightarrow> py_error + (individual list \<times> 'g)" where
  "new_population R n g = initRepeat (new_individual R) n g"

text \<open>
  The individuals that can arise in a run. Memberships come into being in three ways
  only: the registered initialiser, \<open>mutSet\<close> applied to an individual, and \<open>cxSet\<close>
  applied to two individuals; cloning and selection copy or keep individuals as they are.
\<close>

inductive arises :: "'g random_module \<Rightarrow> individual \<Rightarrow> bool" for R :: "'g random_module" where
  arises_init: "new_individual R g = Inr (A, g') \<Longrightarrow> arises R A"
| arises_mutate: "arises R A \<Longrightarrow> mutSet R A g = Inr (A', g') \<Longrightarrow> arises R A'"
| arises_mate_first:
    "arises R (h ind1) \<Longrightarrow> arises R (h ind2) \<Longrightarrow> cxSet h ind1 ind2 = (h', (o1, o2))
     \<Longrightarrow> arises R (h' o1)"
| arises_mate_second:
    "arises R (h ind1) \<Longrightarrow> arises R (h ind2) \<Longrightarrow> cxSet h ind1 ind2 = (h', (o1, o2))
     \<Longrightarrow> arises R (h' o2)"

subsection \<open>The evolution loop\<close>

text \<open>
  The toolbox is a global registry of aliases; \<open>run_ea\<close> overwrites seven of them on every
  call. The selection operator is the library's \<^verbatim>\<open>selNSGA2\<close>.
\<close>

type_synonym selector = "(individual \<times> fitness) list \<Rightarrow> nat \<Rightarrow> (individual \<times> fitness) list"

record 'g toolbox =
  tb_attr_item :: "'g \<Rightarrow> py_error + (int \<times> 'g)"
  tb_individual :: "'g \<Rightarrow> py_error + (individual \<times> 'g)"
  tb_population :: "nat \<Rightarrow> 'g \<Rightarrow> py_error + (individual list \<times> 'g)"
  tb_evaluate :: "individual \<Rightarrow> py_error + fitness"
  tb_mate :: "store \<Rightarrow> ref \<Rightarrow> ref \<Rightarrow> store \<times> (ref \<times> ref)"
  tb_mutate :: "individual \<Rightarrow> 'g \<Rightarrow> py_error + (individual \<times> 'g)"
  tb_select :: selector

text \<open>The global state a run reads and writes: the generator and the toolbox.\<close>

record 'g globals =
  rng :: 'g
  toolbox :: "'g toolbox"

text \<open>
  A generation record: the generation index and the four registered statistics
  (\<^verbatim>\<open>avg\<close>, \<^verbatim>\<open>std\<close>, \<^verbatim>\<open>min\<close>, \<^verbatim>\<open>max\<close>), each a pair over the two objectives.
\<close>

record generation_stats =
  rec_avg :: "real \<times> real"
  rec_std :: "real \<times> real"
  rec_min :: "real \<times> real"
  rec_max :: "real \<times> real"

record generation_record = generation_stats +
  rec_gen :: nat

text \<open>
  The parts of DEAP and numpy the loop calls, taken as parameters: the selection operator,
  one generation step (offspring production with the toolbox's operators, evaluation,
  archive update and selection, consuming random draws) and the compilation of the
  statistics of a population.
\<close>

record 'g deap =
  selNSGA2 :: selector
  generation_step ::
    "'g toolbox \<Rightarrow> individual list \<Rightarrow> nat \<Rightarrow> nat \<Rightarrow> real \<Rightarrow> real \<Rightarrow> 'g \<Rightarrow> individual list \<times> 'g"
  stats_compile :: "'g toolbox \<Rightarrow> individual list \<Rightarrow> generation_stats"

definition logbook_record :: "nat \<Rightarrow> generation_stats \<Rightarrow> generation_record" where
  "logbook_record n st =
     \<lparr> rec_avg = rec_avg st, rec_std = rec_std st, rec_min = rec_min st, rec_max = rec_max st,
       rec_gen = n \<rparr>"

text \<open>
  Modelled from the spec: \<^verbatim>\<open>algorithms.eaMuPlusLambda\<close> of DEAP is not in the sources. The
  specification's evolution loop evaluates the initial population and records generation
  0, then repeats the generation step \<open>ngen\<close> times, for generations \<open>1\<close> to \<open>ngen\<close>, and
  appends one generation record computed over the new population after each step; the
  logbook is the sequence of these records.
\<close>

fun generation_loop ::
  "'g deap \<Rightarrow> 'g toolbox \<Rightarrow> nat \<Rightarrow> nat \<Rightarrow> real \<Rightarrow> real \<Rightarrow> nat list \<Rightarrow>
   individual list \<Rightarrow> 'g \<Rightarrow> generation_record list \<Rightarrow>
   individual list \<times> generation_record list \<times> 'g" where
  "generation_loop L tb mu lambda' cxpb mutpb [] pop g logbook = (pop, logbook, g)"
| "generation_loop L tb mu lambda' cxpb mutpb (n # gens) pop g logbook =
     (let (pop', g') = generation_step L tb pop mu lambda' cxpb mutpb g;
          logbook' = logbook @ [logbook_record n (stats_compile L tb pop')]
      in generation_loop L tb mu lambda' cxpb mutpb gens pop' g' logbook')"

definition eaMuPlusLambda ::
  "'g deap \<Rightarrow> individual list \<Rightarrow> 'g toolbox \<Rightarrow> nat \<Rightarrow> nat \<Rightarrow> real \<Rightarrow> real \<Rightarrow> nat \<Rightarrow> 'g \<Rightarrow>
   individual list \<times> generation_record list \<times> 'g" where
  "eaMuPlusLambda L pop tb mu lambda' cxpb mutpb ngen g =
     generation_loop L tb mu lambda' cxpb mutpb [1..<ngen + 1] pop g
       [logbook_record 0 (stats_compile L tb pop)]"

text \<open>The parameters \<open>run_ea\<close> fixes.\<close>

definition NGEN :: nat where
  "NGEN = 100"

definition MU :: nat where
  "MU = 50"

definition LAMBDA :: nat where
  "LAMBDA = 100"

text \<open>
  The first part of \<open>run_ea\<close>, up to \<^verbatim>\<open>records = logbook[1]\<close>: seed the generator, build the
  items (which seeds again), register the seven aliases, create the population and run the
  loop. It returns the records and the global state it leaves behind.
\<close>

definition run_ea_records ::
  "'g random_module \<Rightarrow> 'g deap \<Rightarrow> real \<Rightarrow> real \<Rightarrow> int \<Rightarrow> 'g globals \<Rightarrow>
   py_error + (generation_record list \<times> 'g globals)" where
  "run_ea_records R L cxpb mutpb seed glob =
     (let glob0 = glob\<lparr>rng := seed_state R seed\<rparr>
      in case create_items R seed of
           Inl e \<Rightarrow> Inl e
         | Inr (items, g1) \<Rightarrow>
             (let tb = (toolbox glob0)
                     \<lparr> tb_attr_item := attr_item R,
                       tb_individual := new_individual R,
                       tb_population := new_population R,
                       tb_evaluate := (\<lambda>ind. evalKnapsack ind items),
                       tb_mate := cxSet,
                       tb_mutate := mutSet R,
                       tb_select := selNSGA2 L \<rparr>
              in case tb_population tb MU g1 of
                   Inl e \<Rightarrow> Inl e
                 | Inr (pop, g2) \<Rightarrow>
                     (let (population, logbook, g3) =
                            eaMuPlusLambda L pop tb MU LAMBDA cxpb mutpb NGEN g2
                      in Inr (logbook, \<lparr> rng = g3, toolbox = tb \<rparr>))))"

text \<open>Python's \<^verbatim>\<open>max\<close> of a list raises \<^verbatim>\<open>ValueError\<close> on the empty list.\<close>

fun py_max :: "real list \<Rightarrow> py_error + real" where
  "py_max [] = Inl ValueError"
| "py_max (x # xs) = Inr (fold max xs x)"

text \<open>
  The search for the earliest generation: the first record whose maximal value equals the
  overall maximum gives its generation index; \<^verbatim>\<open>None\<close> stays if no record matches.
\<close>

fun earliest_generation :: "generation_record list \<Rightarrow> real \<Rightarrow> nat option" where
  "earliest_generation [] overall_max_value = None"
| "earliest_generation (entry # rest) overall_max_value =
     (if snd (rec_max entry) = overall_max_value then Some (rec_gen entry)
      else earliest_generation rest overall_max_value)"

definition run_ea ::
  "'g random_module \<Rightarrow> 'g deap \<Rightarrow> real \<Rightarrow> real \<Rightarrow> int \<Rightarrow> 'g globals \<Rightarrow>
   py_error + ((nat option \<times> real) \<times> 'g globals)" where
  "run_ea R L cxpb mutpb seed glob =
     (case run_ea_records R L cxpb mutpb seed glob of
        Inl e \<Rightarrow> Inl e
      | Inr (records, glob') \<Rightarrow>
          (let all_max_values = map (\<lambda>entry. snd (rec_max entry)) records
           in case py_max all_max_values of
                Inl e \<Rightarrow> Inl e
              | Inr overall_max_value \<Rightarrow>
                  Inr ((earliest_generation records overall_max_value, overall_max_value),
                       glob')))"

text \<open>
  A small stand-in for the library, used to run the loop on concrete inputs: selection
  keeps the first \<open>k\<close>, a generation step drops the first individual, and the statistics
  only count how many individuals have been dropped, up to three.
\<close>

definition stub_deap :: "'g deap" where
  "stub_deap =
     \<lparr> selNSGA2 = (\<lambda>pool k. take k pool),
       generation_step = (\<lambda>tb pop mu lambda' cxpb mutpb g. (tl pop, g)),
       stats_compile = (\<lambda>tb pop.
          \<lparr> rec_avg = (0, 0), rec_std = (0, 0), rec_min = (0, 0),
            rec_max = (0, real (min 3 (50 - length pop))) \<rparr>) \<rparr>"

text \<open>
  A global state as it is before the first run: no alias is registered yet, which the
  stand-in aliases show by failing or doing nothing.
\<close>

definition fresh_globals :: "'g \<Rightarrow> 'g globals" where
  "fresh_globals g =
     \<lparr> rng = g,
       toolbox = \<lparr> tb_attr_item = (\<lambda>g. Inl TypeError),
                   tb_individual = (\<lambda>g. Inl TypeError),
                   tb_population = (\<lambda>n g. Inl TypeError),
                   tb_evaluate = (\<lambda>ind. Inl TypeError),
                   tb_mate = (\<lambda>h ind1 ind2. (h, (ind1, ind2))),
                   tb_mutate = (\<lambda>ind g. Inl TypeError),
                   tb_select = (\<lambda>pool k. []) \<rparr> \<rparr>"

text \<open>The run result of a seed and a probability pair, started from a fresh global state.\<close>

definition run_result ::
  "'g random_module \<Rightarrow> 'g deap \<Rightarrow> real \<Rightarrow> real \<Rightarrow> int \<Rightarrow> py_error + (nat option \<times> real)" where
  "run_result R L cxpb mutpb seed =
     map_sum id fst (run_ea R L cxpb mutpb seed (fresh_globals (seed_state R seed)))"

subsection \<open>The sweep\<close>

text \<open>
  Python's \<^verbatim>\<open>round(x, ndigits)\<close> on exact values: scale, round to the nearest integer with
  ties going to the even one, scale back.
\<close>

definition round_half_even :: "real \<Rightarrow> int" where
  "round_half_even x =
     (let f = \<lfloor>x\<rfloor>; d = x - of_int f
      in if d < 1 / 2 then f
         else if d > 1 / 2 then f + 1
         else if even f then f else f + 1)"

definition py_round :: "real \<Rightarrow> nat \<Rightarrow> real" where
  "py_round x ndigits = of_int (round_half_even (x * 10 ^ ndigits)) / 10 ^ ndigits"

text \<open>A sweep row: \<open>(seed, cxpb, mutpb, earliest_gen, max_val)\<close>.\<close>

type_synonym sweep_row = "int \<times> real \<times> real \<times> nat option \<times> real"

text \<open>
  The two nested loops of \<open>main\<close>: for each seed, for each \<open>i\<close>, one call of \<open>run_ea\<close> and
  one row appended to \<open>results\<close>. The global state is handed from one run to the next.
\<close>

fun sweep_pairs ::
  "'g random_module \<Rightarrow> 'g deap \<Rightarrow> int \<Rightarrow> int list \<Rightarrow> 'g globals \<Rightarrow> sweep_row list \<Rightarrow>
   py_error + (sweep_row list \<times> 'g globals)" where
  "sweep_pairs R L seed [] glob results = Inr (results, glob)"
| "sweep_pairs R L seed (i # rest) glob results =
     (let cxpb = py_round (real_of_int i / 10) 1;
          mutpb = py_round (1 - real_of_int i / 10) 1
      in case run_ea R L cxpb mutpb seed glob of
           Inl e \<Rightarrow> Inl e
         | Inr ((earliest_gen, max_val), glob') \<Rightarrow>
             sweep_pairs R L seed rest glob'
               (results @ [(seed, cxpb, mutpb, earliest_gen, max_val)]))"

fun sweep_seeds ::
  "'g random_module \<Rightarrow> 'g deap \<Rightarrow> int list \<Rightarrow> 'g globals \<Rightarrow> sweep_row list \<Rightarrow>
   py_error + (sweep_row list \<times> 'g globals)" where
  "sweep_seeds R L [] glob results = Inr (results, glob)"
| "sweep_seeds R L (seed # rest) glob results =
     (case sweep_pairs R L seed [0..10] glob results of
        Inl e \<Rightarrow> Inl e
      | Inr (results', glob') \<Rightarrow> sweep_seeds R L rest glob' results')"

definition sweep ::
  "'g random_module \<Rightarrow> 'g deap \<Rightarrow> 'g globals \<Rightarrow> py_error + (sweep_row list \<times> 'g globals)" where
  "sweep R L glob = sweep_seeds R L [1..29] glob []"

subsection \<open>Aggregation\<close>

text \<open>
  \<^verbatim>\<open>combos_dict[(cxpb, mutpb)].append(...)\<close> on a \<^verbatim>\<open>defaultdict(list)\<close>: a dictionary keeps
  its keys in insertion order, and the later loop visits them in that order, so the
  dictionary is an association list.
\<close>

type_synonym combo = "real \<times> real"

fun dict_append :: "('k \<times> 'v list) list \<Rightarrow> 'k \<Rightarrow> 'v \<Rightarrow> ('k \<times> 'v list) list" where
  "dict_append [] k v = [(k, [v])]"
| "dict_append ((k', vs) # rest) k v =
     (if k' = k then (k', vs @ [v]) # rest else (k', vs) # dict_append rest k v)"

definition group_rows :: "sweep_row list \<Rightarrow> (combo \<times> (nat option \<times> real) list) list" where
  "group_rows results =
     foldl (\<lambda>combos_dict (seed, cxpb, mutpb, earliest_gen, max_val).
              dict_append combos_dict (cxpb, mutpb) (earliest_gen, max_val))
       [] results"

text \<open>\<^verbatim>\<open>np.mean\<close> of a non-empty list of numbers, on exact values.\<close>

definition np_mean :: "real list \<Rightarrow> real" where
  "np_mean xs = sum_list xs / real (length xs)"

text \<open>The mean of the earliest generations: a \<^verbatim>\<open>None\<close> among them is a \<^verbatim>\<open>TypeError\<close>.\<close>

definition mean_generation :: "nat option list \<Rightarrow> py_error + real" where
  "mean_generation gens =
     (case those gens of None \<Rightarrow> Inl TypeError | Some ns \<Rightarrow> Inr (np_mean (map real ns)))"

text \<open>
  The selection loop. Its state is \<open>(best_combo, best_combo_avg_max_val, best_combo_avg_gen)\<close>;
  \<open>None\<close> is the initial state \<^verbatim>\<open>(None, float("-inf"), None)\<close>, below which every mean
  lies.
\<close>

fun select_best ::
  "(combo \<times> (nat option \<times> real) list) list \<Rightarrow> (combo \<times> real \<times> real) option \<Rightarrow>
   py_error + (combo \<times> real \<times> real) option" where
  "select_best [] best = Inr best"
| "select_best ((combo, runs_list) # rest) best =
     (case mean_generation (map fst runs_list) of
        Inl e \<Rightarrow> Inl e
      | Inr avg_gen \<Rightarrow>
          (let avg_val = np_mean (map snd runs_list)
           in select_best rest
                (case best of
                   None \<Rightarrow> Some (combo, avg_val, avg_gen)
                 | Some (best_combo, best_combo_avg_max_val, best_combo_avg_gen) \<Rightarrow>
                     if avg_val > best_combo_avg_max_val then Some (combo, avg_val, avg_gen)
                     else if \<bar>avg_val - best_combo_avg_max_val\<bar> < 1 / 10 ^ 9 then
                       (if avg_gen < best_combo_avg_gen then Some (combo, avg_val, avg_gen)
                        else best)
                     else best)))"

text \<open>
  The aggregation of \<open>main\<close>: the winning pair and its two means. With no rows at all
  \<open>best_combo\<close> is still \<^verbatim>\<open>None\<close> and subscripting it raises \<^verbatim>\<open>TypeError\<close>.
\<close>

definition aggregate :: "sweep_row list \<Rightarrow> py_error + (combo \<times> real \<times> real)" where
  "aggregate results =
     (case select_best (group_rows results) None of
        Inl e \<Rightarrow> Inl e
      | Inr None \<Rightarrow> Inl TypeError
      | Inr (Some best) \<Rightarrow> Inr best)"

text \<open>\<open>main\<close> without its file output and printing: the sweep, then the winning pair.\<close>

definition main ::
  "'g random_module \<Rightarrow> 'g deap \<Rightarrow> 'g globals \<Rightarrow> py_error + (combo \<times> 'g globals)" where
  "main R L glob =
     (case sweep R L glob of
        Inl e \<Rightarrow> Inl e
      | Inr (results, glob') \<Rightarrow>
          (case aggregate results of
             Inl e \<Rightarrow> Inl e
           | Inr (best_combo, best_combo_avg_max_val, best_combo_avg_gen) \<Rightarrow>
               Inr (best_combo, glob')))"

text \<open>
  The row the specification expects for a seed and an index \<open>i\<close>: \<open>cxpb = i / 10\<close>,
  \<open>mutpb = 1 - i / 10\<close> and the result of the run with this seed and pair.
\<close>

definition grid_row :: "'g random_module \<Rightarrow> 'g deap \<Rightarrow> int \<Rightarrow> int \<Rightarrow> sweep_row" where
  "grid_row R L seed i =
     (let cxpb = real_of_int i / 10; mutpb = 1 - real_of_int i / 10
      in case run_result R L cxpb mutpb seed of
           Inr (earliest_gen, max_val) \<Rightarrow> (seed, cxpb, mutpb, earliest_gen, max_val)
         | Inl e \<Rightarrow> (seed, cxpb, mutpb, None, 0))"

text \<open>The key of a row: its seed and its probability pair.\<close>

definition row_key :: "sweep_row \<Rightarrow> int \<times> real \<times> real" where
  "row_key row = (fst row, fst (snd row), fst (snd (snd row)))"

text \<open>The ranges of a generated item: weight in \<open>[1, 10]\<close>, value in \<open>[0, 100)\<close>.\<close>

definition entry_ok :: "(int \<times> int \<times> real) \<Rightarrow> bool" where
  "entry_ok e \<longleftrightarrow> 1 \<le> fst (snd e) \<and> fst (snd e) \<le> 10 \<and> 0 \<le> snd (snd e) \<and> snd (snd e) < 100"

section \<open>Properties\<close>

subsection \<open>Fitness evaluation\<close>

lemma sum_generator_defined:
  "set xs \<subseteq> dom items \<Longrightarrow>
   sum_generator f items xs acc = Inr (acc + sum_list (map (\<lambda>item. f (the (items item))) xs))"
proof (induction xs arbitrary: acc)
  case Nil
  show ?case by simp
next
  case (Cons x xs)
  from Cons.prems obtain entry where e: "items x = Some entry" by auto
  from Cons.prems have "set xs \<subseteq> dom items" by simp
  from Cons.IH [OF this] e show ?case
    by (simp add: getitem_def add.assoc)
qed

lemma sum_generator_missing:
  "\<not> set xs \<subseteq> dom items \<Longrightarrow> sum_generator f items xs acc = Inl KeyError"
proof (induction xs arbitrary: acc)
  case Nil
  then show ?case by simp
next
  case (Cons x xs)
  show ?case
  proof (cases "items x")
    case None
    then show ?thesis by (simp add: getitem_def)
  next
    case (Some entry)
    with Cons.prems have "\<not> set xs \<subseteq> dom items" by auto
    from Cons.IH [OF this] Some show ?thesis by (simp add: getitem_def)
  qed
qed

lemma sum_list_sorted_list_of_fset:
  "sum_list (map g (sorted_list_of_fset A)) = sum g (fset A)"
proof -
  have "distinct (sorted_list_of_fset A)"
    by (simp add: sorted_list_of_fset.rep_eq)
  then have "sum_list (map g (sorted_list_of_fset A)) = sum g (set (sorted_list_of_fset A))"
    by (rule sum_list_distinct_conv_sum_set)
  then show ?thesis by simp
qed

lemma evalKnapsack_in_table:
  assumes "fset A \<subseteq> dom items"
  shows "evalKnapsack A items =
           Inr (if MAX_ITEM < int (fcard A) \<or> MAX_WEIGHT < total_weight A items
                then (10000, 0)
                else (total_weight A items, total_value A items))"
proof -
  from assms have sub: "set (sorted_list_of_fset A) \<subseteq> dom items" by simp
  show ?thesis
    unfolding evalKnapsack_def total_weight_def total_value_def
    by (simp add: sum_generator_defined [OF sub] sum_list_sorted_list_of_fset)
qed

lemma evalKnapsack_outside_table:
  assumes "\<not> fset A \<subseteq> dom items"
  shows "evalKnapsack A items = Inl KeyError"
proof -
  from assms have "\<not> set (sorted_list_of_fset A) \<subseteq> dom items" by simp
  then show ?thesis
    unfolding evalKnapsack_def by (simp add: sum_generator_missing)
qed

text \<open>
  C1, as the code has it. When every member of the individual is a key of the item table,
  \<open>evalKnapsack\<close> raises nothing, returns the penalty \<open>(10000, 0)\<close> if and only if the
  individual has more than 50 members or weighs more than 50, and returns the exact pair of
  totals otherwise. When some member is not a key of the table, the lookup raises
  \<^verbatim>\<open>KeyError\<close>.
\<close>

theorem evalKnapsack_spec:
  "(fset A \<subseteq> dom items \<longrightarrow>
      (\<exists>fit. evalKnapsack A items = Inr fit) \<and>
      (evalKnapsack A items = Inr (10000, 0) \<longleftrightarrow>
         50 < fcard A \<or> 50 < total_weight A items) \<and>
      (\<not> (50 < fcard A \<or> 50 < total_weight A items) \<longrightarrow>
         evalKnapsack A items = Inr (total_weight A items, total_value A items))) \<and>
   (\<not> fset A \<subseteq> dom items \<longrightarrow> evalKnapsack A items = Inl KeyError)"
proof (intro conjI impI)
  assume sub: "fset A \<subseteq> dom items"
  note eq = evalKnapsack_in_table [OF sub]
  show "\<exists>fit. evalKnapsack A items = Inr fit"
    using eq by simp
  show "evalKnapsack A items = Inr (10000, 0) \<longleftrightarrow> 50 < fcard A \<or> 50 < total_weight A items"
    using eq by (auto simp: MAX_ITEM_def MAX_WEIGHT_def)
  assume "\<not> (50 < fcard A \<or> 50 < total_weight A items)"
  then show "evalKnapsack A items = Inr (total_weight A items, total_value A items)"
    using eq by (auto simp: MAX_ITEM_def MAX_WEIGHT_def)
next
  assume "\<not> fset A \<subseteq> dom items"
  then show "evalKnapsack A items = Inl KeyError"
    by (rule evalKnapsack_outside_table)
qed

theorem evalKnapsack_spec_witness:
  "fset {|0, 1 :: int|} \<subseteq> dom [0 \<mapsto> (3 :: int, 5 :: real), 1 \<mapsto> (4, 7 / 2)] \<and>
   evalKnapsack {|0, 1|} [0 \<mapsto> (3, 5), 1 \<mapsto> (4, 7 / 2)] = Inr (7, 17 / 2) \<and>
   \<not> fset {|0, 2 :: int|} \<subseteq> dom [0 \<mapsto> (3 :: int, 5 :: real), 1 \<mapsto> (4, 7 / 2)] \<and>
   evalKnapsack {|0, 2|} [0 \<mapsto> (3, 5), 1 \<mapsto> (4, 7 / 2)] = Inl KeyError"
  using evalKnapsack_spec [of "{|0, 1|}" "[0 \<mapsto> (3, 5), 1 \<mapsto> (4, 7 / 2)]"]
    evalKnapsack_spec [of "{|0, 2|}" "[0 \<mapsto> (3, 5), 1 \<mapsto> (4, 7 / 2)]"]
  by (simp add: total_weight_def total_value_def fcard.rep_eq)

text \<open>
  C1 as stated fails: an individual holding an index that is not in the table makes the
  lookup raise instead of returning a fitness tuple.
\<close>

theorem evalKnapsack_raises_counterexample:
  "evalKnapsack {|1|} [0 \<mapsto> (3, 5)] = Inl KeyError"
  by (simp add: evalKnapsack_def sorted_list_of_fset.rep_eq getitem_def)

subsection \<open>The stand-in generator\<close>

lemma counter_rng_contract: "random_contract counter_rng"
  unfolding random_contract_def counter_rng_def
  by (auto simp: divide_less_eq)

lemma counter_rng_simps:
  "seed_state counter_rng seed = nat \<bar>seed\<bar>"
  "random_draw counter_rng g = (real (g mod 4) / 4, Suc g)"
  "randbelow counter_rng n g = (int g mod n, Suc g)"
  by (simp_all add: counter_rng_def)

subsection \<open>Crossover\<close>

lemma card_diff_inter:
  assumes "finite A"
  shows "card A = card (A - B) + card (A \<inter> B)"
proof -
  have "card ((A - B) \<union> (A \<inter> B)) = card (A - B) + card (A \<inter> B)"
    using assms by (intro card_Un_disjoint) auto
  moreover have "(A - B) \<union> (A \<inter> B) = A" by auto
  ultimately show ?thesis by simp
qed

lemma card_sym_diff:
  assumes "finite A" "finite B"
  shows "card ((A - B) \<union> (B - A)) + 2 * card (A \<inter> B) = card A + card B"
proof -
  have a: "card A = card (A - B) + card (A \<inter> B)"
    using assms by (intro card_diff_inter)
  have b: "card B = card (B - A) + card (B \<inter> A)"
    using assms by (intro card_diff_inter)
  have c: "card ((A - B) \<union> (B - A)) = card (A - B) + card (B - A)"
    using assms by (intro card_Un_disjoint) auto
  from a b c show ?thesis by (simp add: Int_commute)
qed

lemma fcard_set_xor:
  "fcard (set_xor A B) + 2 * fcard (A |\<inter>| B) = fcard A + fcard B"
  unfolding set_xor_def fcard.rep_eq
  using card_sym_diff [of "fset A" "fset B"] by simp

lemma fcard_finter_le: "fcard (A |\<inter>| B) \<le> min (fcard A) (fcard B)"
  by (simp add: fcard_mono)


lemma cxSet_distinct:
  assumes "ind1 \<noteq> ind2"
  shows "cxSet h ind1 ind2 =
           (h(ind1 := h ind1 |\<inter>| h ind2, ind2 := set_xor (h ind2) (h ind1)), (ind1, ind2))"
  using assms by (simp add: cxSet_def Let_def)

lemma set_xor_commute: "set_xor A B = set_xor B A"
  by (auto simp: set_xor_def)

text \<open>
  C4, as the code has it. For two distinct objects \<open>ind1\<close> and \<open>ind2\<close>, \<open>cxSet\<close>
  returns the two objects it was given, updated in place: the first now holds the
  intersection of the two original memberships, the second their symmetric difference
  (taken against the membership the first object had before the call), and no other
  object changes. The first offspring is no larger than either parent, and the size of the
  second is \<open>len A + len B - 2 * len (A \<inter> B)\<close>, all sizes taken before the call.
\<close>

theorem cxSet_offspring:
  assumes "ind1 \<noteq> ind2"
  shows "snd (cxSet h ind1 ind2) = (ind1, ind2) \<and>
         fst (cxSet h ind1 ind2) ind1 = h ind1 |\<inter>| h ind2 \<and>
         fst (cxSet h ind1 ind2) ind2 = (h ind1 |-| h ind2) |\<union>| (h ind2 |-| h ind1) \<and>
         (\<forall>r. r \<noteq> ind1 \<and> r \<noteq> ind2 \<longrightarrow> fst (cxSet h ind1 ind2) r = h r) \<and>
         fcard (fst (cxSet h ind1 ind2) ind1) \<le> min (fcard (h ind1)) (fcard (h ind2)) \<and>
         int (fcard (fst (cxSet h ind1 ind2) ind2)) =
           int (fcard (h ind1)) + int (fcard (h ind2)) - 2 * int (fcard (h ind1 |\<inter>| h ind2))"
proof -
  note eq = cxSet_distinct [OF assms, of h]
  have card2: "int (fcard (set_xor (h ind1) (h ind2))) =
      int (fcard (h ind1)) + int (fcard (h ind2)) - 2 * int (fcard (h ind1 |\<inter>| h ind2))"
    using fcard_set_xor [of "h ind1" "h ind2"] by linarith
  show ?thesis
    using assms card2 fcard_finter_le [of "h ind1" "h ind2"]
    by (simp add: eq set_xor_commute [of "h ind2"]) (simp add: set_xor_def)
qed

theorem cxSet_offspring_witness:
  "(0::nat) \<noteq> 1 \<and>
   fst (cxSet (\<lambda>r. if r = 0 then {|1, 2, 3|} else {|2, 3, 4|}) 0 1) 0 = {|2, 3|} \<and>
   fst (cxSet (\<lambda>r. if r = 0 then {|1, 2, 3|} else {|2, 3, 4|}) 0 1) 1 = {|1, 4|}"
  using cxSet_offspring [of 0 1 "\<lambda>r. if r = 0 then {|1, 2, 3|} else {|2, 3, 4|}"]
  by auto

text \<open>
  C4 as stated fails when both parameters name the same object: the intersection leaves
  it unchanged, and the symmetric difference with its own copy then empties it, so the
  first offspring is empty and not \<open>A \<inter> A\<close>.
\<close>

theorem cxSet_same_object_counterexample:
  "fst (cxSet (\<lambda>r. {|1, 2|}) 0 0) 0 = {||} \<and> {|1, 2 :: int|} |\<inter>| {|1, 2|} \<noteq> {||}"
  by (simp add: cxSet_def set_xor_def)

subsection \<open>Mutation\<close>

lemma sorted_list_of_fset_length: "length (sorted_list_of_fset A) = fcard A"
  by (simp add: sorted_list_of_fset.rep_eq fcard.rep_eq)

lemma sorted_list_of_fset_distinct: "distinct (sorted_list_of_fset A)"
  by (simp add: sorted_list_of_fset.rep_eq)

lemma sorted_list_of_fset_nth_mem:
  "k < fcard A \<Longrightarrow> sorted_list_of_fset A ! k |\<in>| A"
  using nth_mem [of k "sorted_list_of_fset A"]
  by (simp add: sorted_list_of_fset_length)

lemma sorted_list_of_fset_nil: "sorted_list_of_fset A = [] \<longleftrightarrow> A = {||}"
  by (metis sorted_list_of_fset_simps(2) fset_of_list_simps(1) sorted_list_of_fset_length fcard_fempty length_0_conv)

lemma member_unique_position:
  assumes "x |\<in>| A"
  shows "\<exists>!k. k < fcard A \<and> sorted_list_of_fset A ! k = x"
proof -
  from assms have "x \<in> set (sorted_list_of_fset A)" by simp
  then obtain k where k: "k < length (sorted_list_of_fset A)" "sorted_list_of_fset A ! k = x"
    by (metis in_set_conv_nth)
  show ?thesis
  proof (rule ex1I [of _ k])
    show "k < fcard A \<and> sorted_list_of_fset A ! k = x"
      using k by (simp add: sorted_list_of_fset_length)
  next
    fix k' assume "k' < fcard A \<and> sorted_list_of_fset A ! k' = x"
    with k show "k' = k"
      using sorted_list_of_fset_distinct [of A]
      by (metis nth_eq_iff_index_eq sorted_list_of_fset_length)
  qed
qed

lemma mutSet_remove:
  assumes "random_contract R" and "random_draw R g = (u, g1)" and "u < 1 / 2"
    and "individual \<noteq> {||}" and "randbelow R (int (fcard individual)) g1 = (k, g2)"
  shows "0 \<le> k \<and> k < int (fcard individual) \<and>
         sorted_list_of_fset individual ! nat k |\<in>| individual \<and>
         mutSet R individual g =
           Inr (individual |-| {|sorted_list_of_fset individual ! nat k|}, g2)"
proof -
  from assms(4) have pos: "0 < int (fcard individual)"
    by (metis sorted_list_of_fset_length sorted_list_of_fset_nil length_0_conv of_nat_0_less_iff neq0_conv)
  with assms(1) assms(5) have k: "0 \<le> k" "k < int (fcard individual)"
    unfolding random_contract_def by (metis fst_conv)+
  then have mem: "sorted_list_of_fset individual ! nat k |\<in>| individual"
    by (intro sorted_list_of_fset_nth_mem) simp
  from assms(4) have ne: "sorted_list_of_fset individual \<noteq> []"
    by (simp add: sorted_list_of_fset_nil)
  show ?thesis
    using assms(2,3,4,5) k mem ne
    by (simp add: mutSet_def choice_def set_remove_def sorted_list_of_fset_length)
qed

lemma mutSet_add:
  assumes "random_contract R" and "random_draw R g = (u, g1)" and "\<not> u < 1 / 2"
    and "randbelow R NBR_ITEMS g1 = (j, g2)"
  shows "0 \<le> j \<and> j < NBR_ITEMS \<and> mutSet R individual g = Inr (finsert j individual, g2)"
proof -
  have "0 < NBR_ITEMS" by (simp add: NBR_ITEMS_def)
  with assms(1) assms(4) have "0 \<le> j" "j < NBR_ITEMS"
    unfolding random_contract_def by (metis fst_conv)+
  then show ?thesis
    using assms(2,3,4) by (simp add: mutSet_def randrange_def NBR_ITEMS_def)
qed

lemma mutSet_empty_remove:
  assumes "random_draw R g = (u, g1)" and "u < 1 / 2"
  shows "mutSet R {||} g = Inr ({||}, g1)"
  using assms by (simp add: mutSet_def)

text \<open>
  C3, as the code has it. One call of \<open>mutSet\<close> draws \<open>u\<close> from \<^verbatim>\<open>random()\<close> and does
  exactly one of three things. If \<open>u < 0.5\<close> and the individual is non-empty, it draws a
  position \<open>k\<close> in the sorted membership and removes the member at that position; every
  member sits at exactly one position, so a uniform position is a uniform member. If
  \<open>u < 0.5\<close> and the individual is empty, it leaves the individual empty and draws nothing
  more. If \<open>u \<ge> 0.5\<close>, it draws an index \<open>j\<close> in \<open>[0, NBR_ITEMS)\<close> and adds it, which changes
  nothing when \<open>j\<close> is already a member.
\<close>

theorem mutSet_one_event:
  assumes "random_contract R" and "random_draw R g = (u, g1)"
  shows "(u < 1 / 2 \<and> individual \<noteq> {||} \<longrightarrow>
            (\<exists>k g2. randbelow R (int (fcard individual)) g1 = (k, g2) \<and>
               0 \<le> k \<and> k < int (fcard individual) \<and>
               sorted_list_of_fset individual ! nat k |\<in>| individual \<and>
               mutSet R individual g =
                 Inr (individual |-| {|sorted_list_of_fset individual ! nat k|}, g2))) \<and>
         (u < 1 / 2 \<and> individual = {||} \<longrightarrow> mutSet R individual g = Inr ({||}, g1)) \<and>
         (\<not> u < 1 / 2 \<longrightarrow>
            (\<exists>j g2. randbelow R NBR_ITEMS g1 = (j, g2) \<and> 0 \<le> j \<and> j < NBR_ITEMS \<and>
               mutSet R individual g = Inr (finsert j individual, g2) \<and>
               (j |\<in>| individual \<longrightarrow> finsert j individual = individual))) \<and>
         (\<forall>x. x |\<in>| individual \<longrightarrow>
            (\<exists>!k. k < fcard individual \<and> sorted_list_of_fset individual ! k = x))"
proof (intro conjI impI allI)
  assume "u < 1 / 2 \<and> individual \<noteq> {||}"
  then have u: "u < 1 / 2" and ne: "individual \<noteq> {||}" by simp_all
  obtain k g2 where d: "randbelow R (int (fcard individual)) g1 = (k, g2)"
    by (cases "randbelow R (int (fcard individual)) g1")
  from mutSet_remove [OF assms u ne d] d
  show "\<exists>k g2. randbelow R (int (fcard individual)) g1 = (k, g2) \<and>
          0 \<le> k \<and> k < int (fcard individual) \<and>
          sorted_list_of_fset individual ! nat k |\<in>| individual \<and>
          mutSet R individual g =
            Inr (individual |-| {|sorted_list_of_fset individual ! nat k|}, g2)"
    by blast
next
  assume "u < 1 / 2 \<and> individual = {||}"
  then show "mutSet R individual g = Inr ({||}, g1)"
    using mutSet_empty_remove [OF assms(2)] by simp
next
  assume u: "\<not> u < 1 / 2"
  obtain j g2 where d: "randbelow R NBR_ITEMS g1 = (j, g2)"
    by (cases "randbelow R NBR_ITEMS g1")
  from mutSet_add [OF assms u d, of individual] d
  show "\<exists>j g2. randbelow R NBR_ITEMS g1 = (j, g2) \<and> 0 \<le> j \<and> j < NBR_ITEMS \<and>
          mutSet R individual g = Inr (finsert j individual, g2) \<and>
          (j |\<in>| individual \<longrightarrow> finsert j individual = individual)"
    by (blast intro: finsert_absorb)
next
  fix x assume "x |\<in>| individual"
  then show "\<exists>!k. k < fcard individual \<and> sorted_list_of_fset individual ! k = x"
    by (rule member_unique_position)
qed

theorem mutSet_one_event_witness:
  "random_contract counter_rng \<and> random_draw counter_rng 0 = (0, 1) \<and>
   mutSet counter_rng {|3, 5, 9|} 0 = Inr ({|3, 9|}, 2)"
  using mutSet_one_event [OF counter_rng_contract, of 0 0 1 "{|3, 5, 9|}"] counter_rng_contract
  by (auto simp: counter_rng_simps fcard.rep_eq sorted_list_of_fset.rep_eq)

text \<open>
  C3 as stated fails on the empty individual when the remove branch is drawn: no index
  is added, the individual stays empty.
\<close>

theorem mutSet_empty_counterexample:
  "fst (random_draw counter_rng 0) < 1 / 2 \<and> mutSet counter_rng {||} 0 = Inr ({||}, 1)"
  by (simp add: mutSet_def counter_rng_simps)

subsection \<open>Edge cases of the operators\<close>

lemma universe_member: "j |\<in>| universe \<longleftrightarrow> 0 \<le> j \<and> j < NBR_ITEMS"
  by (auto simp: universe_def fset_of_list_elem)

lemma cxSet_edge_cases:
  assumes ne: "ind1 \<noteq> ind2"
  shows "snd (cxSet h ind1 ind2) = (ind1, ind2) \<and>
      (h ind1 = {||} \<longrightarrow>
         fst (cxSet h ind1 ind2) ind1 = {||} \<and> fst (cxSet h ind1 ind2) ind2 = h ind2) \<and>
      (h ind2 = {||} \<longrightarrow>
         fst (cxSet h ind1 ind2) ind1 = {||} \<and> fst (cxSet h ind1 ind2) ind2 = h ind1) \<and>
      (h ind1 = universe \<and> h ind2 |\<subseteq>| universe \<longrightarrow>
         fst (cxSet h ind1 ind2) ind1 = h ind2 \<and>
         fst (cxSet h ind1 ind2) ind2 = universe |-| h ind2) \<and>
      (h ind2 = universe \<and> h ind1 |\<subseteq>| universe \<longrightarrow>
         fst (cxSet h ind1 ind2) ind1 = h ind1 \<and>
         fst (cxSet h ind1 ind2) ind2 = universe |-| h ind1)"
  using ne by (auto simp: cxSet_distinct [OF ne] set_xor_def)

lemma mutSet_empty_returns: "\<exists>res. mutSet R {||} g = Inr res"
  by (cases "random_draw R g"; cases "randbelow R NBR_ITEMS (snd (random_draw R g))")
     (simp add: mutSet_def randrange_def NBR_ITEMS_def)

lemma mutSet_add_universe:
  assumes "random_contract R" and "\<not> fst (random_draw R g) < 1 / 2"
  shows "\<exists>g'. mutSet R universe g = Inr (universe, g')"
proof -
  obtain j g2 where d: "randbelow R NBR_ITEMS (snd (random_draw R g)) = (j, g2)"
    by (cases "randbelow R NBR_ITEMS (snd (random_draw R g))")
  have "0 \<le> j \<and> j < NBR_ITEMS \<and> mutSet R universe g = Inr (finsert j universe, g2)"
    using assms d by (intro mutSet_add [of R g "fst (random_draw R g)"]) simp_all
  then show ?thesis
    by (simp add: finsert_absorb universe_member)
qed

text \<open>
  C8. \<open>mutSet\<close> returns normally on the empty individual; when the remove branch is drawn
  on the empty individual it stays empty; the add branch on the full universe leaves it
  the full universe; and \<open>cxSet\<close> on two distinct objects, one of them empty or the full
  universe, returns its two arguments with the memberships the set operations give.
\<close>

theorem operators_edge_cases:
  "(\<exists>res. mutSet R {||} g = Inr res) \<and>
   (fst (random_draw R g) < 1 / 2 \<longrightarrow> mutSet R {||} g = Inr ({||}, snd (random_draw R g))) \<and>
   (random_contract R \<and> \<not> fst (random_draw R g) < 1 / 2 \<longrightarrow>
      (\<exists>g'. mutSet R universe g = Inr (universe, g'))) \<and>
   snd (cxSet h ind1 ind2) = (ind1, ind2) \<and>
   (ind1 \<noteq> ind2 \<longrightarrow>
      (h ind1 = {||} \<longrightarrow>
         fst (cxSet h ind1 ind2) ind1 = {||} \<and> fst (cxSet h ind1 ind2) ind2 = h ind2) \<and>
      (h ind2 = {||} \<longrightarrow>
         fst (cxSet h ind1 ind2) ind1 = {||} \<and> fst (cxSet h ind1 ind2) ind2 = h ind1) \<and>
      (h ind1 = universe \<and> h ind2 |\<subseteq>| universe \<longrightarrow>
         fst (cxSet h ind1 ind2) ind1 = h ind2 \<and>
         fst (cxSet h ind1 ind2) ind2 = universe |-| h ind2) \<and>
      (h ind2 = universe \<and> h ind1 |\<subseteq>| universe \<longrightarrow>
         fst (cxSet h ind1 ind2) ind1 = h ind1 \<and>
         fst (cxSet h ind1 ind2) ind2 = universe |-| h ind1))"
proof -
  have a: "\<exists>res. mutSet R {||} g = Inr res"
    by (rule mutSet_empty_returns)
  have b: "fst (random_draw R g) < 1 / 2 \<longrightarrow>
             mutSet R {||} g = Inr ({||}, snd (random_draw R g))"
    using mutSet_empty_remove [of R g "fst (random_draw R g)" "snd (random_draw R g)"]
    by simp
  have c: "random_contract R \<and> \<not> fst (random_draw R g) < 1 / 2 \<longrightarrow>
             (\<exists>g'. mutSet R universe g = Inr (universe, g'))"
    using mutSet_add_universe [of R g] by blast
  have d: "snd (cxSet h ind1 ind2) = (ind1, ind2)"
    by (simp add: cxSet_def Let_def)
  from a b c d cxSet_edge_cases [of ind1 ind2 h] show ?thesis
    by blast
qed

theorem operators_edge_cases_witness:
  "fst (random_draw counter_rng 0) < 1 / 2 \<and>
   mutSet counter_rng {||} 0 = Inr ({||}, 1) \<and>
   random_contract counter_rng \<and> \<not> fst (random_draw counter_rng 2) < 1 / 2 \<and>
   (\<exists>g'. mutSet counter_rng universe 2 = Inr (universe, g')) \<and>
   (0 :: nat) \<noteq> 1 \<and>
   fst (cxSet (\<lambda>r. if r = 0 then {||} else universe) 0 1) 0 = {||} \<and>
   fst (cxSet (\<lambda>r. if r = 0 then {||} else universe) 0 1) 1 = universe"
  using operators_edge_cases [of counter_rng 0 "\<lambda>r. if r = 0 then {||} else universe" 0 1]
    operators_edge_cases [of counter_rng 2 "\<lambda>r. if r = 0 then {||} else universe" 0 1]
    counter_rng_contract
  by (simp add: counter_rng_simps)

subsection \<open>Item generation and initialisation\<close>

lemma randint_1_10:
  "\<exists>w g'. randint R 1 10 g = Inr (w, g') \<and> (random_contract R \<longrightarrow> 1 \<le> w \<and> w \<le> 10)"
proof -
  obtain r g' where d: "randbelow R 10 g = (r, g')" by (cases "randbelow R 10 g")
  have "random_contract R \<longrightarrow> 0 \<le> r \<and> r < 10"
    unfolding random_contract_def using d by (metis fst_conv zero_less_numeral)
  with d show ?thesis
    by (auto simp: randint_def randrange_def)
qed

lemma uniform_0_100:
  "\<exists>v g'. uniform R 0 100 g = (v, g') \<and> (random_contract R \<longrightarrow> 0 \<le> v \<and> v < 100)"
proof -
  obtain u g' where d: "random_draw R g = (u, g')" by (cases "random_draw R g")
  have "random_contract R \<longrightarrow> 0 \<le> u \<and> u < 1"
    unfolding random_contract_def using d by (metis fst_conv)
  with d show ?thesis
    by (auto simp: uniform_def)
qed

lemma create_entries_returns:
  "\<exists>entries g'. create_entries R keys g = Inr (entries, g') \<and> map fst entries = keys \<and>
     (random_contract R \<longrightarrow> (\<forall>e \<in> set entries. entry_ok e))"
proof (induction keys arbitrary: g)
  case Nil
  show ?case by simp
next
  case (Cons i keys)
  obtain w g1 where w: "randint R 1 10 g = Inr (w, g1)"
      "random_contract R \<longrightarrow> 1 \<le> w \<and> w \<le> 10"
    using randint_1_10 [of R g] by blast
  obtain v g2 where v: "uniform R 0 100 g1 = (v, g2)"
      "random_contract R \<longrightarrow> 0 \<le> v \<and> v < 100"
    using uniform_0_100 [of R g1] by blast
  obtain entries g3 where r: "create_entries R keys g2 = Inr (entries, g3)"
      "map fst entries = keys" "random_contract R \<longrightarrow> (\<forall>e \<in> set entries. entry_ok e)"
    using Cons.IH [of g2] by blast
  from w v r show ?case
    by (simp add: entry_ok_def)
qed

lemma create_items_returns:
  "\<exists>items g'. create_items R seed = Inr (items, g') \<and>
     dom items = {0..NBR_ITEMS - 1} \<and>
     (random_contract R \<longrightarrow>
        (\<forall>i w v. items i = Some (w, v) \<longrightarrow> 1 \<le> w \<and> w \<le> 10 \<and> 0 \<le> v \<and> v < 100))"
proof -
  obtain entries g' where r:
      "create_entries R [0..NBR_ITEMS - 1] (seed_state R seed) = Inr (entries, g')"
      "map fst entries = [0..NBR_ITEMS - 1]"
      "random_contract R \<longrightarrow> (\<forall>e \<in> set entries. entry_ok e)"
    using create_entries_returns [of R "[0..NBR_ITEMS - 1]" "seed_state R seed"] by blast
  have dom: "dom (map_of entries) = {0..NBR_ITEMS - 1}"
    using r(2) by (metis dom_map_of_conv_image_fst set_map set_upto)
  have rng: "random_contract R \<longrightarrow>
      (\<forall>i w v. map_of entries i = Some (w, v) \<longrightarrow> 1 \<le> w \<and> w \<le> 10 \<and> 0 \<le> v \<and> v < 100)"
  proof (intro impI allI)
    fix i w v assume c: "random_contract R" and m: "map_of entries i = Some (w, v)"
    from m have "(i, (w, v)) \<in> set entries" by (rule map_of_SomeD)
    with r(3) c have "entry_ok (i, (w, v))" by blast
    then show "1 \<le> w \<and> w \<le> 10 \<and> 0 \<le> v \<and> v < 100" by (simp add: entry_ok_def)
  qed
  from r(1) dom rng show ?thesis
    by (simp add: create_items_def)
qed

lemma initRepeat_returns:
  assumes "\<And>g. \<exists>x g'. func g = Inr (x, g') \<and> P x"
  shows "\<exists>xs g'. initRepeat func n g = Inr (xs, g') \<and> length xs = n \<and> (\<forall>x \<in> set xs. P x)"
proof (induction n arbitrary: g)
  case 0
  show ?case by simp
next
  case (Suc n)
  obtain x g1 where x: "func g = Inr (x, g1)" "P x" using assms [of g] by blast
  obtain xs g2 where xs: "initRepeat func n g1 = Inr (xs, g2)" "length xs = n"
      "\<forall>x \<in> set xs. P x"
    using Suc.IH [of g1] by blast
  from x xs show ?case by simp
qed

lemma attr_item_returns:
  "\<exists>j g'. attr_item R g = Inr (j, g') \<and> (random_contract R \<longrightarrow> 0 \<le> j \<and> j < NBR_ITEMS)"
proof -
  obtain j g' where d: "randbelow R NBR_ITEMS g = (j, g')" by (cases "randbelow R NBR_ITEMS g")
  have "0 < NBR_ITEMS" by (simp add: NBR_ITEMS_def)
  then have "random_contract R \<longrightarrow> 0 \<le> j \<and> j < NBR_ITEMS"
    unfolding random_contract_def using d by (metis fst_conv)
  with d show ?thesis
    by (simp add: attr_item_def randrange_def NBR_ITEMS_def)
qed

lemma new_individual_returns:
  "\<exists>A g'. new_individual R g = Inr (A, g') \<and> (random_contract R \<longrightarrow> A |\<subseteq>| universe)"
proof -
  obtain xs g' where xs: "initRepeat (attr_item R) IND_INIT_SIZE g = Inr (xs, g')"
      "\<forall>j \<in> set xs. random_contract R \<longrightarrow> 0 \<le> j \<and> j < NBR_ITEMS"
    using initRepeat_returns [of "attr_item R"
        "\<lambda>j. random_contract R \<longrightarrow> 0 \<le> j \<and> j < NBR_ITEMS" IND_INIT_SIZE g]
      attr_item_returns [of R]
    by blast
  have "random_contract R \<longrightarrow> fset_of_list xs |\<subseteq>| universe"
    using xs(2) by (auto simp: universe_member fset_of_list_elem)
  with xs(1) show ?thesis
    by (simp add: new_individual_def)
qed

lemma new_population_returns:
  "\<exists>pop g'. new_population R n g = Inr (pop, g') \<and> length pop = n"
  unfolding new_population_def
  using initRepeat_returns [of "new_individual R" "\<lambda>_. True" n g] new_individual_returns [of R]
  by blast

subsection \<open>Individuals stay inside the universe\<close>

lemma mutSet_within:
  assumes "random_contract R" and "mutSet R A g = Inr (A', g')" and "A |\<subseteq>| universe"
  shows "A' |\<subseteq>| universe"
proof -
  obtain u g1 where u: "random_draw R g = (u, g1)" by (cases "random_draw R g")
  show ?thesis
  proof (cases "u < 1 / 2")
    case True
    with assms(2) u have "A' |\<subseteq>| A"
      by (auto simp: mutSet_def set_remove_def split: if_splits sum.splits)
    with assms(3) show ?thesis by blast
  next
    case False
    obtain j g2 where d: "randbelow R NBR_ITEMS g1 = (j, g2)"
      by (cases "randbelow R NBR_ITEMS g1")
    have "0 < NBR_ITEMS" by (simp add: NBR_ITEMS_def)
    with assms(1) d have "0 \<le> j \<and> j < NBR_ITEMS"
      unfolding random_contract_def by (metis fst_conv)
    moreover from False assms(2) u d have "A' = finsert j A"
      by (simp add: mutSet_def randrange_def NBR_ITEMS_def)
    ultimately show ?thesis
      using assms(3) by (simp add: universe_member)
  qed
qed

lemma cxSet_within:
  assumes "cxSet h ind1 ind2 = (h', (o1, o2))"
  shows "h' o1 |\<subseteq>| h ind1 |\<union>| h ind2 \<and> h' o2 |\<subseteq>| h ind1 |\<union>| h ind2"
  using assms by (auto simp: cxSet_def Let_def set_xor_def split: if_splits)

lemma arises_within:
  assumes "random_contract R" and "arises R A"
  shows "A |\<subseteq>| universe"
  using assms(2)
proof (induction rule: arises.induct)
  case (arises_init g A g')
  then show ?case
    using new_individual_returns [of R g] assms(1) by simp
next
  case (arises_mutate A g A' g')
  then show ?case
    using mutSet_within [OF assms(1)] by blast
next
  case (arises_mate_first h ind1 ind2 h' o1 o2)
  then show ?case
    using cxSet_within [of h ind1 ind2 h' o1 o2] by blast
next
  case (arises_mate_second h ind1 ind2 h' o1 o2)
  then show ?case
    using cxSet_within [of h ind1 ind2 h' o1 o2] by blast
qed

lemma fcard_universe: "fcard universe = 20"
  by (simp add: universe_def NBR_ITEMS_def fcard.rep_eq fset_of_list.rep_eq)


subsection \<open>The penalty under dominance\<close>

lemma total_value_nonneg:
  assumes "fset A \<subseteq> dom items" and "\<And>i w v. items i = Some (w, v) \<Longrightarrow> 0 \<le> v"
  shows "0 \<le> total_value A items"
  unfolding total_value_def
proof (rule sum_nonneg)
  fix i assume "i \<in> fset A"
  with assms(1) obtain w v where "items i = Some (w, v)" by fastforce
  with assms(2) show "0 \<le> snd (the (items i))" by fastforce
qed

lemma penalty_dominates_nothing:
  assumes "evalKnapsack A items = Inr fit"
  shows "\<not> dominates (10000, 0) fit"
proof (cases "fset A \<subseteq> dom items")
  case True
  from evalKnapsack_in_table [OF True] assms show ?thesis
    by (auto simp: dominates_def wvalues_def fitness_weights_def MAX_WEIGHT_def
             split: if_splits)
next
  case False
  from evalKnapsack_outside_table [OF False] assms show ?thesis by simp
qed

lemma feasible_dominates_penalty:
  assumes "evalKnapsack A items = Inr (w, v)" and "(w, v) \<noteq> (10000, 0)"
    and "\<And>i w v. items i = Some (w, v) \<Longrightarrow> 0 \<le> v"
  shows "w \<le> 50 \<and> dominates (w, v) (10000, 0)"
proof (cases "fset A \<subseteq> dom items")
  case True
  from evalKnapsack_in_table [OF True] assms(1,2)
  have w: "w = total_weight A items" "w \<le> 50" and v: "v = total_value A items"
    by (auto simp: MAX_WEIGHT_def split: if_splits)
  from total_value_nonneg [OF True assms(3)] v have "0 \<le> v" by simp
  with w show ?thesis
    by (simp add: dominates_def wvalues_def fitness_weights_def)
next
  case False
  from evalKnapsack_outside_table [OF False] assms(1) show ?thesis by simp
qed

text \<open>
  C9. For the item table of any seed, under the dominance order with weight minimised and
  value maximised: the penalty fitness \<open>(10000, 0)\<close> dominates no fitness tuple that
  \<open>evalKnapsack\<close> returns, and every tuple \<open>(w, v)\<close> that the non-penalty branch returns has
  \<open>w \<le> 50\<close> and dominates \<open>(10000, 0)\<close>.
\<close>

theorem penalty_is_dominated:
  assumes "random_contract R" and "create_items R seed = Inr (items, g')"
  shows "(\<forall>A fit. evalKnapsack A items = Inr fit \<longrightarrow> \<not> dominates (10000, 0) fit) \<and>
         (\<forall>A w v. evalKnapsack A items = Inr (w, v) \<and> (w, v) \<noteq> (10000, 0) \<longrightarrow>
            w \<le> 50 \<and> dominates (w, v) (10000, 0))"
proof -
  from create_items_returns [of R seed] assms
  have nonneg: "\<And>i w v. items i = Some (w, v) \<Longrightarrow> 0 \<le> v" by auto
  show ?thesis
    using penalty_dominates_nothing feasible_dominates_penalty nonneg by blast
qed

lemma create_items_counter_rng_1:
  "create_items counter_rng 1 =
     Inr (map_of
       [(0, 2, 50), (1, 4, 0), (2, 6, 50), (3, 8, 0), (4, 10, 50), (5, 2, 0), (6, 4, 50),
        (7, 6, 0), (8, 8, 50), (9, 10, 0), (10, 2, 50), (11, 4, 0), (12, 6, 50), (13, 8, 0),
        (14, 10, 50), (15, 2, 0), (16, 4, 50), (17, 6, 0), (18, 8, 50), (19, 10, 0)], 41)"
  by (simp add: create_items_def NBR_ITEMS_def upto_rec1 randint_def randrange_def
        uniform_def counter_rng_simps)


theorem penalty_is_dominated_witness:
  "random_contract counter_rng \<and>
   (\<exists>items g. create_items counter_rng 1 = Inr (items, g) \<and>
      evalKnapsack {|0, 1|} items = Inr (6, 50) \<and>
      dominates (6, 50) (10000, 0) \<and> \<not> dominates (10000, 0) (6, 50))"
proof -
  let ?items = "map_of
       [(0, 2, 50), (1, 4, 0), (2, 6, 50), (3, 8, 0), (4, 10, 50), (5, 2, 0), (6, 4, 50),
        (7, 6, 0), (8, 8, 50), (9, 10, 0), (10, 2, 50), (11, 4, 0), (12, 6, 50), (13, 8, 0),
        (14, 10, 50), (15, 2, 0), (16, 4, 50), (17, 6, 0), (18, 8, 50), (19, 10, 0 :: real)]
       :: item_table"
  have ev: "evalKnapsack {|0, 1|} ?items = Inr (6, 50)"
    by (simp add: evalKnapsack_def sorted_list_of_fset.rep_eq getitem_def fcard.rep_eq
          MAX_ITEM_def MAX_WEIGHT_def)
  have ne: "(6 :: int, 50 :: real) \<noteq> (10000, 0)" by simp
  note dom = penalty_is_dominated [OF counter_rng_contract create_items_counter_rng_1]
  from dom ev have "\<not> dominates (10000, 0) (6, 50)"
    by blast
  moreover from dom ev ne have "dominates (6, 50) (10000, 0)"
    by blast
  ultimately have "dominates (6, 50) (10000, 0) \<and> \<not> dominates (10000, 0) (6, 50)"
    by simp
  with ev counter_rng_contract create_items_counter_rng_1 show ?thesis
    by blast
qed

subsection \<open>Reachable individuals\<close>

lemma fcard_within_universe:
  assumes "A |\<subseteq>| universe"
  shows "fcard A \<le> 20"
  using fcard_mono [OF assms] by (simp add: fcard_universe)

lemma universe_dom:
  assumes "A |\<subseteq>| universe" and "dom items = {0..NBR_ITEMS - 1}"
  shows "fset A \<subseteq> dom items"
proof
  fix x assume "x \<in> fset A"
  with assms(1) have "x |\<in>| universe" by blast
  then show "x \<in> dom items"
    using assms(2) by (simp add: universe_member)
qed

text \<open>
  C10. Every individual that can arise in a run is a subset of \<open>[0, 20)\<close>; so it has at most
  20 members, the test \<open>len(individual) > MAX_ITEM\<close> never holds, the lookups of
  \<open>evalKnapsack\<close> in the item table of any seed never fail, and the penalty is returned if
  and only if the total weight exceeds 50.
\<close>

theorem arising_individuals:
  assumes "random_contract R" and "arises R A"
  shows "A |\<subseteq>| universe \<and> fcard A \<le> 20 \<and> \<not> MAX_ITEM < int (fcard A) \<and>
         (\<forall>seed. \<exists>items g fit.
            create_items R seed = Inr (items, g) \<and> evalKnapsack A items = Inr fit \<and>
            (fit = (10000, 0) \<longleftrightarrow> MAX_WEIGHT < total_weight A items))"
proof -
  have sub: "A |\<subseteq>| universe"
    using assms by (rule arises_within)
  have card: "fcard A \<le> 20"
    using sub by (rule fcard_within_universe)
  have "\<exists>items g fit.
          create_items R seed = Inr (items, g) \<and> evalKnapsack A items = Inr fit \<and>
          (fit = (10000, 0) \<longleftrightarrow> MAX_WEIGHT < total_weight A items)" for seed
  proof -
    obtain items g where it: "create_items R seed = Inr (items, g)"
        "dom items = {0..NBR_ITEMS - 1}"
      using create_items_returns [of R seed] by blast
    have "fset A \<subseteq> dom items"
      using sub it(2) by (rule universe_dom)
    from evalKnapsack_in_table [OF this] card it(1) show ?thesis
      by (auto simp: MAX_ITEM_def MAX_WEIGHT_def)
  qed
  with sub card show ?thesis
    by (simp add: MAX_ITEM_def)
qed

lemma new_individual_counter_rng_1:
  "new_individual counter_rng 1 = Inr ({|1, 2, 3, 4, 5|}, 6)"
  by (simp add: new_individual_def IND_INIT_SIZE_def eval_nat_numeral attr_item_def
        randrange_def NBR_ITEMS_def counter_rng_simps)

theorem arising_individuals_witness:
  "random_contract counter_rng \<and> arises counter_rng {|1, 2, 3, 4, 5|} \<and>
   {|1, 2, 3, 4, 5|} |\<subseteq>| universe \<and>
   (\<exists>items g. create_items counter_rng 1 = Inr (items, g) \<and>
      evalKnapsack {|1, 2, 3, 4, 5|} items = Inr (30, 100))"
proof -
  let ?items = "map_of
       [(0, 2, 50), (1, 4, 0), (2, 6, 50), (3, 8, 0), (4, 10, 50), (5, 2, 0), (6, 4, 50),
        (7, 6, 0), (8, 8, 50), (9, 10, 0), (10, 2, 50), (11, 4, 0), (12, 6, 50), (13, 8, 0),
        (14, 10, 50), (15, 2, 0), (16, 4, 50), (17, 6, 0), (18, 8, 50), (19, 10, 0 :: real)]
       :: item_table"
  have a: "arises counter_rng {|1, 2, 3, 4, 5|}"
    using new_individual_counter_rng_1 by (rule arises_init)
  have ev: "evalKnapsack {|1, 2, 3, 4, 5|} ?items = Inr (30, 100)"
    by (simp add: evalKnapsack_def sorted_list_of_fset.rep_eq getitem_def fcard.rep_eq
          MAX_ITEM_def MAX_WEIGHT_def)
  from arising_individuals [OF counter_rng_contract a]
  have "{|1, 2, 3, 4, 5|} |\<subseteq>| universe" by blast
  with a ev counter_rng_contract create_items_counter_rng_1 show ?thesis
    by blast
qed

subsection \<open>The run\<close>

lemma generation_loop_gens:
  "map rec_gen (fst (snd (generation_loop L tb mu lam cxpb mutpb gens pop g logbook))) =
     map rec_gen logbook @ gens"
proof (induction gens arbitrary: pop g logbook)
  case Nil
  show ?case by simp
next
  case (Cons n gens)
  obtain pop' g' where st: "generation_step L tb pop mu lam cxpb mutpb g = (pop', g')"
    by (cases "generation_step L tb pop mu lam cxpb mutpb g")
  show ?case
    using Cons.IH [of pop' g' "logbook @ [logbook_record n (stats_compile L tb pop')]"] st
    by (simp add: logbook_record_def)
qed

lemma eaMuPlusLambda_gens:
  "map rec_gen (fst (snd (eaMuPlusLambda L pop tb mu lam cxpb mutpb ngen g))) = [0..<ngen + 1]"
  unfolding eaMuPlusLambda_def generation_loop_gens
  by (simp add: logbook_record_def upt_rec [of 0])

lemma run_ea_records_returns:
  "\<exists>records glob'. run_ea_records R L cxpb mutpb seed glob = Inr (records, glob') \<and>
     map rec_gen records = [0..<101]"
proof -
  obtain items g1 where it: "create_items R seed = Inr (items, g1)"
    using create_items_returns [of R seed] by blast
  obtain pop g2 where pop: "new_population R MU g1 = Inr (pop, g2)"
    using new_population_returns [of R MU g1] by blast
  let ?tb = "(toolbox (glob\<lparr>rng := seed_state R seed\<rparr>))
                     \<lparr> tb_attr_item := attr_item R,
                       tb_individual := new_individual R,
                       tb_population := new_population R,
                       tb_evaluate := (\<lambda>ind. evalKnapsack ind items),
                       tb_mate := cxSet,
                       tb_mutate := mutSet R,
                       tb_select := selNSGA2 L \<rparr>"
  obtain population logbook g3 where
    ea: "eaMuPlusLambda L pop ?tb MU LAMBDA cxpb mutpb NGEN g2 = (population, logbook, g3)"
    by (cases "eaMuPlusLambda L pop ?tb MU LAMBDA cxpb mutpb NGEN g2")
  have "map rec_gen logbook = [0..<101]"
    using eaMuPlusLambda_gens [of L pop ?tb MU LAMBDA cxpb mutpb NGEN g2] ea
    by (simp add: NGEN_def)
  with it pop ea show ?thesis
    by (simp add: run_ea_records_def Let_def)
qed

lemma py_max_nonempty:
  assumes "xs \<noteq> []"
  shows "py_max xs = Inr (Max (set xs))"
proof -
  from assms obtain y ys where "xs = y # ys" by (cases xs) auto
  then show ?thesis using Max.set_eq_fold [of y ys] by simp
qed

lemma earliest_generation_find:
  "earliest_generation records m =
     map_option rec_gen (find (\<lambda>entry. snd (rec_max entry) = m) records)"
  by (induction records) simp_all

lemma earliest_generation_first:
  assumes "m \<in> set (map (\<lambda>entry. snd (rec_max entry)) records)"
  shows "\<exists>i < length records. earliest_generation records m = Some (rec_gen (records ! i)) \<and>
           snd (rec_max (records ! i)) = m \<and> (\<forall>k<i. snd (rec_max (records ! k)) \<noteq> m)"
proof -
  from assms obtain r where "find (\<lambda>entry. snd (rec_max entry) = m) records = Some r"
    by (cases "find (\<lambda>entry. snd (rec_max entry) = m) records") (auto simp: find_None_iff)
  then show ?thesis
    unfolding earliest_generation_find by (auto simp: find_Some_iff)
qed

lemma run_ea_returns:
  "\<exists>e m glob'. run_ea R L cxpb mutpb seed glob = Inr ((e, m), glob')"
proof -
  obtain records glob' where r: "run_ea_records R L cxpb mutpb seed glob = Inr (records, glob')"
      "map rec_gen records = [0..<101]"
    using run_ea_records_returns [of R L cxpb mutpb seed glob] by blast
  from r(2) have "length records = 101"
    by (metis length_map length_upt diff_zero)
  then have "records \<noteq> []" by auto
  then obtain x xs where "map (\<lambda>entry. snd (rec_max entry)) records = x # xs"
    by (cases records) auto
  with r(1) show ?thesis
    by (simp add: run_ea_def)
qed

lemma run_ea_records_ignores_globals:
  "run_ea_records R L cxpb mutpb seed glob1 = run_ea_records R L cxpb mutpb seed glob2"
proof -
  have tb: "(toolbox (glob1\<lparr>rng := g\<rparr>))
                     \<lparr> tb_attr_item := a, tb_individual := b, tb_population := c,
                       tb_evaluate := d, tb_mate := e, tb_mutate := f, tb_select := s \<rparr> =
            (toolbox (glob2\<lparr>rng := g\<rparr>))
                     \<lparr> tb_attr_item := a, tb_individual := b, tb_population := c,
                       tb_evaluate := d, tb_mate := e, tb_mutate := f, tb_select := s \<rparr>"
    for g a b c d e f s
    by (cases "toolbox glob1"; cases "toolbox glob2") simp
  show ?thesis
    by (simp only: run_ea_records_def Let_def tb)
qed

text \<open>
  C5. Every run returns, with a logbook of exactly 101 generation records, for the
  generations 0 to 100 in order. Its result is the maximum, over all records, of the
  recorded maximal value objective, together with the smallest generation index whose
  recorded maximum is equal to it (exact equality); this index is never \<^verbatim>\<open>None\<close> and lies
  in \<open>[0, 100]\<close>.
\<close>

theorem run_ea_result:
  "\<exists>records glob' e m.
     run_ea_records R L cxpb mutpb seed glob = Inr (records, glob') \<and>
     length records = 101 \<and> map rec_gen records = [0..<101] \<and>
     run_ea R L cxpb mutpb seed glob = Inr ((Some e, m), glob') \<and>
     m = Max (set (map (\<lambda>entry. snd (rec_max entry)) records)) \<and>
     e \<le> 100 \<and> snd (rec_max (records ! e)) = m \<and>
     (\<forall>k<e. snd (rec_max (records ! k)) \<noteq> m)"
proof -
  obtain records glob' where r: "run_ea_records R L cxpb mutpb seed glob = Inr (records, glob')"
      "map rec_gen records = [0..<101]"
    using run_ea_records_returns [of R L cxpb mutpb seed glob] by blast
  from r(2) have len: "length records = 101"
    by (metis length_map length_upt diff_zero)
  let ?vals = "map (\<lambda>entry. snd (rec_max entry)) records"
  let ?m = "Max (set ?vals)"
  from len have ne: "?vals \<noteq> []" by auto
  then have mx: "py_max ?vals = Inr ?m" by (rule py_max_nonempty)
  from ne have "?m \<in> set ?vals" by (intro Max_in) simp_all
  then obtain i where i: "i < length records"
      "earliest_generation records ?m = Some (rec_gen (records ! i))"
      "snd (rec_max (records ! i)) = ?m" "\<forall>k<i. snd (rec_max (records ! k)) \<noteq> ?m"
    using earliest_generation_first [of ?m records] by blast
  from i(1) r(2) len have gi: "rec_gen (records ! i) = i"
    by (metis nth_map nth_upt add_0)
  have run: "run_ea R L cxpb mutpb seed glob = Inr ((Some i, ?m), glob')"
    using r(1) mx i(2) gi by (simp add: run_ea_def)
  from i(1) len have "i \<le> 100" by simp
  with r len run i(3,4) show ?thesis by blast
qed

theorem run_ea_result_witness:
  "\<exists>records glob'.
     run_ea_records counter_rng stub_deap (1 / 2) (1 / 2) 1 (fresh_globals 0) =
       Inr (records, glob') \<and>
     length records = 101 \<and>
     run_ea counter_rng stub_deap (1 / 2) (1 / 2) 1 (fresh_globals 0) =
       Inr ((Some 3, 3), glob') \<and>
     snd (rec_max (records ! 3)) = 3 \<and>
     snd (rec_max (records ! 0)) \<noteq> 3 \<and> snd (rec_max (records ! 1)) \<noteq> 3 \<and>
     snd (rec_max (records ! 2)) \<noteq> 3"
proof -
  have ev: "map_sum id fst
      (run_ea counter_rng stub_deap (1 / 2) (1 / 2) 1 (fresh_globals 0)) = Inr (Some 3, 3)"
    by code_simp
  obtain records glob' e m where r:
      "run_ea_records counter_rng stub_deap (1 / 2) (1 / 2) 1 (fresh_globals 0) =
         Inr (records, glob')"
      "length records = 101"
      "run_ea counter_rng stub_deap (1 / 2) (1 / 2) 1 (fresh_globals 0) =
         Inr ((Some e, m), glob')"
      "snd (rec_max (records ! e)) = m" "\<forall>k<e. snd (rec_max (records ! k)) \<noteq> m"
    using run_ea_result [of counter_rng stub_deap "1 / 2" "1 / 2" 1 "fresh_globals 0"]
    by blast
  from ev r(3) have em: "e = 3" "m = 3" by simp_all
  from r em show ?thesis by auto
qed

text \<open>
  C6. A run reseeds the generator and overwrites every alias it uses, so its logbook, its
  result and the global state it leaves do not depend on the global state it starts
  from: two runs with the same seed and the same probability pair are identical.
\<close>

theorem run_ea_deterministic:
  "run_ea_records R L cxpb mutpb seed glob1 = run_ea_records R L cxpb mutpb seed glob2 \<and>
   run_ea R L cxpb mutpb seed glob1 = run_ea R L cxpb mutpb seed glob2"
proof -
  have records: "run_ea_records R L cxpb mutpb seed glob1 =
      run_ea_records R L cxpb mutpb seed glob2"
    by (rule run_ea_records_ignores_globals)
  then have "run_ea R L cxpb mutpb seed glob1 = run_ea R L cxpb mutpb seed glob2"
    by (simp add: run_ea_def)
  with records show ?thesis by simp
qed

subsection \<open>The sweep\<close>

lemma run_ea_run_result:
  "\<exists>e m glob'. run_ea R L cxpb mutpb seed glob = Inr ((e, m), glob') \<and>
     run_result R L cxpb mutpb seed = Inr (e, m)"
proof -
  obtain e m glob' where r: "run_ea R L cxpb mutpb seed glob = Inr ((e, m), glob')"
    using run_ea_returns [of R L cxpb mutpb seed glob] by blast
  have "run_ea R L cxpb mutpb seed (fresh_globals (seed_state R seed)) =
          run_ea R L cxpb mutpb seed glob"
    using run_ea_records_ignores_globals [of R L cxpb mutpb seed
        "fresh_globals (seed_state R seed)" glob]
    by (simp add: run_ea_def)
  with r show ?thesis
    by (simp add: run_result_def)
qed

lemma round_half_even_int: "round_half_even (of_int n) = n"
  by (simp add: round_half_even_def)

lemma py_round_tenth: "py_round (real_of_int i / 10) 1 = real_of_int i / 10"
  using round_half_even_int [of i] by (simp add: py_round_def)

lemma py_round_one_minus_tenth: "py_round (1 - real_of_int i / 10) 1 = 1 - real_of_int i / 10"
proof -
  have "(1 - real_of_int i / 10) * 10 = of_int (10 - i)" by simp
  then have "round_half_even ((1 - real_of_int i / 10) * 10 ^ 1) = 10 - i"
    using round_half_even_int [of "10 - i"] by simp
  then show ?thesis
    by (simp add: py_round_def field_simps)
qed

lemma sweep_pairs_rows:
  "\<exists>glob'. sweep_pairs R L seed is glob results =
     Inr (results @ map (grid_row R L seed) is, glob')"
proof (induction "is" arbitrary: glob results)
  case Nil
  show ?case by simp
next
  case (Cons i "is")
  obtain e m glob1 where r:
      "run_ea R L (real_of_int i / 10) (1 - real_of_int i / 10) seed glob = Inr ((e, m), glob1)"
      "run_result R L (real_of_int i / 10) (1 - real_of_int i / 10) seed = Inr (e, m)"
    using run_ea_run_result [of R L "real_of_int i / 10" "1 - real_of_int i / 10" seed glob]
    by blast
  from r(2) have row: "grid_row R L seed i =
      (seed, real_of_int i / 10, 1 - real_of_int i / 10, e, m)"
    by (simp add: grid_row_def Let_def)
  obtain glob' where "sweep_pairs R L seed is glob1 (results @ [grid_row R L seed i]) =
      Inr ((results @ [grid_row R L seed i]) @ map (grid_row R L seed) is, glob')"
    using Cons.IH [of glob1 "results @ [grid_row R L seed i]"] by blast
  with r(1) row show ?case
    by (simp add: py_round_tenth py_round_one_minus_tenth Let_def del: One_nat_def)
qed

lemma sweep_seeds_rows:
  "\<exists>glob'. sweep_seeds R L seeds glob results =
     Inr (results @ concat (map (\<lambda>seed. map (grid_row R L seed) [0..10]) seeds), glob')"
proof (induction seeds arbitrary: glob results)
  case Nil
  show ?case by simp
next
  case (Cons seed seeds)
  obtain glob1 where p: "sweep_pairs R L seed [0..10] glob results =
      Inr (results @ map (grid_row R L seed) [0..10], glob1)"
    using sweep_pairs_rows [of R L seed "[0..10]" glob results] by blast
  obtain glob' where "sweep_seeds R L seeds glob1 (results @ map (grid_row R L seed) [0..10]) =
      Inr ((results @ map (grid_row R L seed) [0..10]) @
           concat (map (\<lambda>seed. map (grid_row R L seed) [0..10]) seeds), glob')"
    using Cons.IH [of glob1 "results @ map (grid_row R L seed) [0..10]"] by blast
  with p show ?case by simp
qed

lemma sweep_grid:
  "\<exists>glob'. sweep R L glob =
     Inr (concat (map (\<lambda>seed. map (grid_row R L seed) [0..10]) [1..29]), glob')"
  using sweep_seeds_rows [of R L "[1..29]" glob "[]"] by (simp add: sweep_def)

lemma row_key_grid_row:
  "row_key (grid_row R L seed i) = (seed, real_of_int i / 10, 1 - real_of_int i / 10)"
  by (simp add: row_key_def grid_row_def Let_def split: sum.splits prod.splits)

lemma grid_row_cxpb: "fst (snd (grid_row R L seed i)) = real_of_int i / 10"
  by (simp add: grid_row_def Let_def split: sum.splits prod.splits)

lemma grid_row_mutpb: "fst (snd (snd (grid_row R L seed i))) = 1 - real_of_int i / 10"
  by (simp add: grid_row_def Let_def split: sum.splits prod.splits)

lemma fst_grid_row: "fst (grid_row R L seed i) = seed"
  using row_key_grid_row [of R L seed i] by (simp add: row_key_def)

lemma grid_keys:
  "map row_key (concat (map (\<lambda>seed. map (grid_row R L seed) is) seeds)) =
     map (\<lambda>(seed, i). (seed, real_of_int i / 10, 1 - real_of_int i / 10))
       (List.product seeds is)"
  by (induction seeds) (simp_all add: row_key_grid_row comp_def)

lemma grid_length:
  "length (concat (map (\<lambda>seed. map (grid_row R L seed) is) seeds)) =
     length seeds * length is"
  by (induction seeds) simp_all

lemma filter_grid_seed:
  "filter (\<lambda>row. fst row = seed) (map (grid_row R L s) is) =
     (if s = seed then map (grid_row R L s) is else [])"
  by (simp add: filter_map comp_def fst_grid_row)

lemma filter_grid:
  assumes "distinct seeds"
  shows "filter (\<lambda>row. fst row = seed) (concat (map (\<lambda>s. map (grid_row R L s) is) seeds)) =
           (if seed \<in> set seeds then map (grid_row R L seed) is else [])"
  using assms
proof (induction seeds)
  case Nil
  show ?case by simp
next
  case (Cons s seeds)
  then show ?case
    by (auto simp: filter_grid_seed)
qed

lemma grid_row_run:
  "case grid_row R L seed i of (s, cxpb, mutpb, earliest_gen, max_val) \<Rightarrow>
     map_sum id fst (run_ea R L cxpb mutpb s glob0) = Inr (earliest_gen, max_val)"
proof -
  obtain e m glob1 where r:
      "run_ea R L (real_of_int i / 10) (1 - real_of_int i / 10) seed glob0 = Inr ((e, m), glob1)"
      "run_result R L (real_of_int i / 10) (1 - real_of_int i / 10) seed = Inr (e, m)"
    using run_ea_run_result [of R L "real_of_int i / 10" "1 - real_of_int i / 10" seed glob0]
    by blast
  then show ?thesis
    by (simp add: grid_row_def Let_def)
qed

lemma tenths_pairs:
  "map (\<lambda>i. (real_of_int i / 10, 1 - real_of_int i / 10)) [0..10] =
     [(0, 1), (1 / 10, 9 / 10), (2 / 10, 8 / 10), (3 / 10, 7 / 10), (4 / 10, 6 / 10),
      (5 / 10, 5 / 10), (6 / 10, 4 / 10), (7 / 10, 3 / 10), (8 / 10, 2 / 10),
      (9 / 10, 1 / 10), (1, 0)]"
  by (simp add: upto_rec1)

lemma grid_keys_distinct:
  "distinct (map (\<lambda>(seed, i). (seed, real_of_int i / 10, 1 - real_of_int i / 10))
      (List.product [1..29] [0..10]))"
proof -
  have "inj (\<lambda>(seed :: int, i). (seed, real_of_int i / 10, 1 - real_of_int i / 10))"
    by (auto simp: inj_on_def)
  then have "inj_on (\<lambda>(seed :: int, i). (seed, real_of_int i / 10, 1 - real_of_int i / 10))
      (set (List.product [1..29] [0..10]))"
    by (rule inj_on_subset) simp
  then show ?thesis
    by (simp add: distinct_map distinct_product)
qed

text \<open>
  C7. The sweep returns 319 rows, one for each seed in \<open>1..29\<close> and each \<open>i\<close> in \<open>0..10\<close>, in
  that order and without repetition, with \<open>cxpb = i / 10\<close> and \<open>mutpb = 1 - i / 10\<close>; the
  eleven rows of a seed have the \<open>cxpb\<close> values \<open>0.0, 0.1, ..., 1.0\<close>, each paired with
  \<open>mutpb = 1 - cxpb\<close> rounded to one decimal; and every row holds the result of the run with
  its seed and pair.
\<close>

theorem sweep_rows:
  "\<exists>rows glob'.
     sweep R L glob = Inr (rows, glob') \<and>
     length rows = 319 \<and>
     map row_key rows =
       map (\<lambda>(seed, i). (seed, real_of_int i / 10, 1 - real_of_int i / 10))
         (List.product [1..29] [0..10]) \<and>
     distinct (map row_key rows) \<and>
     (\<forall>seed \<in> {1..29}.
        map (\<lambda>row. (fst (snd row), fst (snd (snd row)))) (filter (\<lambda>row. fst row = seed) rows) =
          [(0, 1), (1 / 10, 9 / 10), (2 / 10, 8 / 10), (3 / 10, 7 / 10), (4 / 10, 6 / 10),
           (5 / 10, 5 / 10), (6 / 10, 4 / 10), (7 / 10, 3 / 10), (8 / 10, 2 / 10),
           (9 / 10, 1 / 10), (1, 0)]) \<and>
     (\<forall>row \<in> set rows. fst (snd (snd row)) = py_round (1 - fst (snd row)) 1) \<and>
     (\<forall>row \<in> set rows. \<forall>glob0.
        case row of (seed, cxpb, mutpb, earliest_gen, max_val) \<Rightarrow>
          map_sum id fst (run_ea R L cxpb mutpb seed glob0) = Inr (earliest_gen, max_val))"
proof -
  let ?rows = "concat (map (\<lambda>seed. map (grid_row R L seed) [0..10]) [1..29])"
  obtain glob' where sw: "sweep R L glob = Inr (?rows, glob')"
    using sweep_grid [of R L glob] by blast
  have len: "length ?rows = 319"
    by (simp add: grid_length)
  have keys: "map row_key ?rows =
      map (\<lambda>(seed, i). (seed, real_of_int i / 10, 1 - real_of_int i / 10))
        (List.product [1..29] [0..10])"
    by (rule grid_keys)
  have dist: "distinct (map row_key ?rows)"
    unfolding keys by (rule grid_keys_distinct)
  have per_seed: "map (\<lambda>row. (fst (snd row), fst (snd (snd row))))
        (filter (\<lambda>row. fst row = seed) ?rows) =
          [(0, 1), (1 / 10, 9 / 10), (2 / 10, 8 / 10), (3 / 10, 7 / 10), (4 / 10, 6 / 10),
           (5 / 10, 5 / 10), (6 / 10, 4 / 10), (7 / 10, 3 / 10), (8 / 10, 2 / 10),
           (9 / 10, 1 / 10), (1, 0)]" if "seed \<in> {1..29}" for seed
  proof -
    have "filter (\<lambda>row. fst row = seed) ?rows = map (grid_row R L seed) [0..10]"
      using that by (simp add: filter_grid)
    moreover have "map (\<lambda>row. (fst (snd row), fst (snd (snd row))))
        (map (grid_row R L seed) [0..10]) =
        map (\<lambda>i. (real_of_int i / 10, 1 - real_of_int i / 10)) [0..10]"
      using row_key_grid_row [of R L seed] by (simp add: row_key_def comp_def)
    ultimately show ?thesis
      by (simp only: tenths_pairs)
  qed
  have in_grid: "\<exists>seed i. row = grid_row R L seed i" if "row \<in> set ?rows" for row
    using that by auto
  have rounded: "fst (snd (snd row)) = py_round (1 - fst (snd row)) 1" if "row \<in> set ?rows" for row
  proof -
    from in_grid [OF that] obtain seed i where "row = grid_row R L seed i" by blast
    then show ?thesis
      by (simp only: grid_row_cxpb grid_row_mutpb py_round_one_minus_tenth)
  qed
  have runs: "case row of (seed, cxpb, mutpb, earliest_gen, max_val) \<Rightarrow>
          map_sum id fst (run_ea R L cxpb mutpb seed glob0) = Inr (earliest_gen, max_val)"
    if "row \<in> set ?rows" for row glob0
  proof -
    from in_grid [OF that] obtain seed i where "row = grid_row R L seed i" by blast
    then show ?thesis
      using grid_row_run [where R = R and L = L and seed = seed and i = i and ?glob0.0 = glob0]
      by simp
  qed
  from sw len keys dist per_seed rounded runs show ?thesis
    by blast
qed

theorem sweep_rows_witness:
  "(1 :: int) \<in> {1..29} \<and>
   (\<exists>rows glob'.
      sweep counter_rng stub_deap (fresh_globals 0) = Inr (rows, glob') \<and>
      length rows = 319 \<and>
      map (\<lambda>row. (fst (snd row), fst (snd (snd row)))) (filter (\<lambda>row. fst row = 1) rows) =
        [(0, 1), (1 / 10, 9 / 10), (2 / 10, 8 / 10), (3 / 10, 7 / 10), (4 / 10, 6 / 10),
         (5 / 10, 5 / 10), (6 / 10, 4 / 10), (7 / 10, 3 / 10), (8 / 10, 2 / 10),
         (9 / 10, 1 / 10), (1, 0)])"
proof -
  have one: "(1 :: int) \<in> {1..29}" by simp
  obtain rows glob' where r:
      "sweep counter_rng stub_deap (fresh_globals 0) = Inr (rows, glob')"
      "length rows = 319"
      "\<forall>seed \<in> {1..29}.
        map (\<lambda>row. (fst (snd row), fst (snd (snd row)))) (filter (\<lambda>row. fst row = seed) rows) =
          [(0, 1), (1 / 10, 9 / 10), (2 / 10, 8 / 10), (3 / 10, 7 / 10), (4 / 10, 6 / 10),
           (5 / 10, 5 / 10), (6 / 10, 4 / 10), (7 / 10, 3 / 10), (8 / 10, 2 / 10),
           (9 / 10, 1 / 10), (1, 0)]"
    using sweep_rows [of counter_rng stub_deap "fresh_globals 0"] by blast
  from r(3) one have
    "map (\<lambda>row. (fst (snd row), fst (snd (snd row)))) (filter (\<lambda>row. fst row = 1) rows) =
          [(0, 1), (1 / 10, 9 / 10), (2 / 10, 8 / 10), (3 / 10, 7 / 10), (4 / 10, 6 / 10),
           (5 / 10, 5 / 10), (6 / 10, 4 / 10), (7 / 10, 3 / 10), (8 / 10, 2 / 10),
           (9 / 10, 1 / 10), (1, 0)]"
    by (rule bspec)
  with one r(1,2) show ?thesis by simp
qed

subsection \<open>Aggregation\<close>

text \<open>
  C2 at a near tie. Two groups whose mean values are \<open>80\<close> and \<open>80.0000000001\<close> lie within
  the tolerance. When the group with the larger mean comes second, the strict comparison
  adopts it before the tolerance test is reached, although its mean earliest generation
  is the higher one; in the opposite order the tolerance branch runs and the group with
  the lower mean earliest generation is kept.
\<close>

theorem aggregate_near_tie:
  "aggregate [(1, 0, 1, Some 5, 80), (1, 1 / 10, 9 / 10, Some 10, 80 + 1 / 10 ^ 10)] =
     Inr ((1 / 10, 9 / 10), 80 + 1 / 10 ^ 10, 10) \<and>
   aggregate [(1, 1 / 10, 9 / 10, Some 10, 80 + 1 / 10 ^ 10), (1, 0, 1, Some 5, 80)] =
     Inr ((0, 1), 80, 5)"
  by (simp add: aggregate_def group_rows_def mean_generation_def np_mean_def)

end
